theory Spec2Isabelle
  imports Main "HOL-Library.Word"
begin

section \<open>The submission queue of dxvk\_queue.cpp\<close>

text \<open>
  The queue is shared by any number of producer threads and two worker threads
  (\<open>submitCmdLists\<close> and \<open>finishCmdLists\<close>). The model is an interleaving
  transition system: every stretch of code that runs with \<open>m_mutex\<close> held is one
  atomic step, and what a worker does with \<open>m_mutex\<close> released is cut into steps
  of its own (for the submitter: the test of \<open>m_lastError\<close> at line 136, then the
  lock and the device call of lines 138 to 157, then lines 164 and 165; for the
  finisher: lines 228 to 231, then lines 233 to 241), so that producers and the other
  worker can run in between. What the device, the presenter and the crash reporter answer
  is not decided by the queue; each worker step takes their answer as an argument.
\<close>

subsection \<open>Data\<close>

text \<open>
  \<open>VkResult\<close>: the three codes the source names (0, 1 and -4 in the Vulkan headers),
  and every other code by its number.
\<close>

datatype VkResult = VK_SUCCESS | VK_NOT_READY | VK_ERROR_DEVICE_LOST | VK_RESULT int

datatype GFSDK_Aftermath_CrashDump_Status =
    GFSDK_Aftermath_CrashDump_Status_NotStarted
  | GFSDK_Aftermath_CrashDump_Status_CollectingData
  | GFSDK_Aftermath_CrashDump_Status_CollectingDataFailed
  | GFSDK_Aftermath_CrashDump_Status_InvokingCallback
  | GFSDK_Aftermath_CrashDump_Status_Finished
  | GFSDK_Aftermath_CrashDump_Status_Unknown

datatype VkPresentMarker = VK_PRESENT_START | VK_PRESENT_END

text \<open>
  Handles (\<open>Rc<DxvkCommandList>\<close>, the presenter, semaphores, the address of a
  \<open>DxvkSubmitStatus\<close>) are numbers; \<open>None\<close> is \<open>nullptr\<close>.
\<close>

record DxvkSubmitInfo =
  cmdList :: "nat option"
  waitSync :: nat
  wakeSync :: nat

record DxvkPresentInfo =
  presenter :: "nat option"
  frameId :: nat

record DxvkSubmitEntry =
  e_status :: "nat option"
  e_submit :: DxvkSubmitInfo
  e_present :: DxvkPresentInfo

text \<open>\<open>DxvkSubmitEntry entry = { }\<close>: every member zero.\<close>

definition entry0 :: DxvkSubmitEntry where
  "entry0 = \<lparr> e_status = None,
      e_submit = \<lparr> cmdList = None, waitSync = 0, wakeSync = 0 \<rparr>,
      e_present = \<lparr> presenter = None, frameId = 0 \<rparr> \<rparr>"

text \<open>
  Everything the workers call outside the queue, in the order they call it; a call that
  returns a \<open>VkResult\<close> carries the result it returned.
\<close>

datatype DeviceCall =
    CmdList_submit nat nat nat VkResult
  | Reflex_setMarker nat VkPresentMarker
  | Presenter_presentImage nat VkResult
  | Sleep nat
  | Logger_err string VkResult
  | GFSDK_Aftermath_GetCrashDumpStatus GFSDK_Aftermath_CrashDump_Status
  | Device_waitForIdle
  | CmdList_synchronize nat VkResult
  | CmdList_notifySignals nat
  | CmdList_reset nat
  | Device_recycleCommandList nat

text \<open>
  \<open>m_device->config()\<close>, and the constant \<open>MaxNumQueuedCommandBuffers\<close>, which
  dxvk\_queue.h declares and the source files here do not contain: it is a parameter.
\<close>

record DxvkConfig =
  presentThrottleDelay :: nat
  enableAftermath :: bool
  MaxNumQueuedCommandBuffers :: nat

text \<open>
  The answers of the outside world to one worker step: the result of the one call the step
  makes that returns a \<open>VkResult\<close> (\<open>cmdList->submit\<close>, \<open>presentImage\<close> or
  \<open>cmdList->synchronize\<close>), and what the crash reporter says when it is asked with
  the poll counter at a given value.
\<close>

record DeviceResponse =
  vkResult :: VkResult
  crashDumpStatus :: "nat \<Rightarrow> GFSDK_Aftermath_CrashDump_Status"

text \<open>
  Where the submitter thread is in \<open>submitCmdLists\<close>:
  \<^item> \<open>S_Loop\<close>: at the loop head (line 122), holding \<open>m_mutex\<close>;
  \<^item> \<open>S_Asleep\<close>: inside \<open>m_appendCond.wait\<close>, predicate false, not notified;
  \<^item> \<open>S_Dispatch entry\<close>: after line 131, \<open>m_mutex\<close> released, before the
    test of line 136;
  \<^item> \<open>S_Call entry\<close>: the test of line 136 has found \<open>m_lastError\<close> different
    from \<open>VK_ERROR_DEVICE_LOST\<close>; before the \<open>lock_guard\<close> of line 138;
  \<^item> \<open>S_Publish entry status\<close>: before line 164;
  \<^item> \<open>S_Complete entry status\<close>: before line 168;
  \<^item> \<open>S_Returned\<close>: the thread function has returned;
  \<^item> \<open>S_Undefined\<close>: \<open>pop\<close> of an empty queue.
\<close>

datatype submit_pc =
    S_Loop
  | S_Asleep
  | S_Dispatch DxvkSubmitEntry
  | S_Call DxvkSubmitEntry
  | S_Publish DxvkSubmitEntry VkResult
  | S_Complete DxvkSubmitEntry VkResult
  | S_Returned
  | S_Undefined

text \<open>
  Where the finisher thread is in \<open>finishCmdLists\<close>:
  \<^item> \<open>F_Loop\<close>: at the loop head (line 210) or woken in the wait of line 214;
  \<^item> \<open>F_Asleep\<close>: inside \<open>m_submitCond.wait\<close>, predicate false, not notified;
  \<^item> \<open>F_Sync entry\<close>: after line 226, \<open>m_mutex\<close> released;
  \<^item> \<open>F_Handle entry status\<close>: before line 233;
  \<^item> \<open>F_Pop\<close>: before line 243;
  \<^item> \<open>F_Returned\<close>: the thread function has returned;
  \<^item> \<open>F_Undefined\<close>: a call through a null \<open>cmdList\<close>, or \<open>pop\<close> of an
    empty queue.
\<close>

datatype finish_pc =
    F_Loop
  | F_Asleep
  | F_Sync DxvkSubmitEntry
  | F_Handle DxvkSubmitEntry VkResult
  | F_Pop
  | F_Returned
  | F_Undefined

text \<open>
  A producer call that is waiting on a condition variable, with the flag "notified since
  it last found its predicate false".
\<close>

datatype waiting_call =
    In_submit DxvkSubmitInfo
  | In_synchronizeSubmission nat
  | In_synchronize

datatype cond = m_appendCond | m_submitCond | m_finishCond

fun call_cond :: "waiting_call \<Rightarrow> cond" where
  "call_cond (In_submit _) = m_finishCond"
| "call_cond (In_synchronizeSubmission _) = m_submitCond"
| "call_cond In_synchronize = m_submitCond"

text \<open>
  The queue object, the two threads, the waiting producer calls, the status cells the
  producers own, and the calls made so far. \<open>m_mutexQueue\<close> is true while a caller of
  \<open>lockDeviceQueue\<close> holds it; the submitter takes and releases it within one step.
  \<open>m_gpuIdle\<close> is a sum of clock differences and is left out.

  A worker moves the head of its queue into its local \<open>entry\<close> and works on that; the
  slot it moved from stays in the queue, is not read again and is popped at the end. The
  lists here keep the value that was pushed in that slot, so the length of a list is the
  \<open>size()\<close> of the queue and its elements are the entries as they were enqueued.
\<close>

record DxvkSubmissionQueue =
  m_stopped :: bool
  m_pending :: "32 word"
  m_lastError :: VkResult
  m_submitQueue :: "DxvkSubmitEntry list"
  m_finishQueue :: "DxvkSubmitEntry list"
  m_mutexQueue :: bool
  submitThread :: submit_pc
  finishThread :: finish_pc
  callers :: "(waiting_call \<times> bool) list"
  statusSlots :: "nat \<Rightarrow> VkResult"
  trace :: "DeviceCall list"

text \<open>
  Modelled from the spec: the member initialisers of dxvk\_queue.h, which is not among the
  source files (\<open>LastError\<close> is \<open>SUCCESS\<close> initially, \<open>PendingCount\<close> and both
  queues start empty, the flag is clear). The constructor starts both threads. The status
  cells are the producers' memory and start with whatever they hold.
\<close>

definition init :: "(nat \<Rightarrow> VkResult) \<Rightarrow> DxvkSubmissionQueue" where
  "init slots = \<lparr> m_stopped = False, m_pending = 0, m_lastError = VK_SUCCESS,
      m_submitQueue = [], m_finishQueue = [], m_mutexQueue = False,
      submitThread = S_Loop, finishThread = F_Loop, callers = [],
      statusSlots = slots, trace = [] \<rparr>"

subsection \<open>Condition variables\<close>

text \<open>
  \<open>cv.wait(lock, pred)\<close> is \<open>while (!pred()) cv.wait(lock)\<close>: the predicate is
  evaluated first, and again after each notification. \<open>notify_all\<close> marks every
  thread asleep on that condition variable as notified. A thread is woken by a
  notification only.
\<close>

definition notify_all :: "cond \<Rightarrow> DxvkSubmissionQueue \<Rightarrow> DxvkSubmissionQueue" where
  "notify_all c q = q\<lparr>
     submitThread := (if c = m_appendCond \<and> submitThread q = S_Asleep then S_Loop
                      else submitThread q),
     finishThread := (if c = m_submitCond \<and> finishThread q = F_Asleep then F_Loop
                      else finishThread q),
     callers := map (\<lambda>(b, n). (b, n \<or> call_cond b = c)) (callers q) \<rparr>"

datatype 'a outcome = Returns 'a | Waits 'a

fun state_of :: "'a outcome \<Rightarrow> 'a" where
  "state_of (Returns q) = q"
| "state_of (Waits q) = q"

definition wait_on :: "waiting_call \<Rightarrow> DxvkSubmissionQueue \<Rightarrow> DxvkSubmissionQueue" where
  "wait_on b q = q\<lparr> callers := callers q @ [(b, False)] \<rparr>"

subsection \<open>Producer calls\<close>

text \<open>Lines 56 to 58: the predicate of the wait in \<open>submit\<close>.\<close>

definition submit_pred :: "DxvkConfig \<Rightarrow> DxvkSubmissionQueue \<Rightarrow> bool" where
  "submit_pred cfg q =
     (length (m_submitQueue q) + length (m_finishQueue q) \<le> MaxNumQueuedCommandBuffers cfg)"

text \<open>Lines 60 to 65.\<close>

definition submit_push :: "DxvkSubmitInfo \<Rightarrow> DxvkSubmissionQueue \<Rightarrow> DxvkSubmissionQueue" where
  "submit_push submitInfo q =
     notify_all m_appendCond
       (q\<lparr> m_pending := m_pending q + 1,
           m_submitQueue := m_submitQueue q @ [entry0\<lparr> e_submit := submitInfo \<rparr>] \<rparr>)"

definition submit ::
  "DxvkConfig \<Rightarrow> DxvkSubmitInfo \<Rightarrow> DxvkSubmissionQueue \<Rightarrow> DxvkSubmissionQueue outcome" where
  "submit cfg submitInfo q =
     (if submit_pred cfg q then Returns (submit_push submitInfo q)
      else Waits (wait_on (In_submit submitInfo) q))"

text \<open>Lines 69 to 79.\<close>

definition present ::
  "DxvkPresentInfo \<Rightarrow> nat option \<Rightarrow> DxvkSubmissionQueue \<Rightarrow> DxvkSubmissionQueue outcome" where
  "present presentInfo status q =
     Returns (notify_all m_appendCond
       (q\<lparr> m_submitQueue := m_submitQueue q @
              [entry0\<lparr> e_status := status, e_present := presentInfo \<rparr>] \<rparr>))"

text \<open>Lines 82 to 90.\<close>

definition synchronizeSubmission ::
  "nat \<Rightarrow> DxvkSubmissionQueue \<Rightarrow> DxvkSubmissionQueue outcome" where
  "synchronizeSubmission status q =
     (if statusSlots q status \<noteq> VK_NOT_READY then Returns q
      else Waits (wait_on (In_synchronizeSubmission status) q))"

text \<open>Lines 93 to 100.\<close>

definition synchronize :: "DxvkSubmissionQueue \<Rightarrow> DxvkSubmissionQueue outcome" where
  "synchronize q =
     (if m_submitQueue q = [] then Returns q else Waits (wait_on In_synchronize q))"

text \<open>
  Lines 103 to 112. Locking a mutex that is held does not return yet; unlocking one that
  is not held is undefined and has no step here.
\<close>

definition lockDeviceQueue :: "DxvkSubmissionQueue \<Rightarrow> DxvkSubmissionQueue option" where
  "lockDeviceQueue q = (if m_mutexQueue q then None else Some (q\<lparr> m_mutexQueue := True \<rparr>))"

definition unlockDeviceQueue :: "DxvkSubmissionQueue \<Rightarrow> DxvkSubmissionQueue option" where
  "unlockDeviceQueue q = (if m_mutexQueue q then Some (q\<lparr> m_mutexQueue := False \<rparr>) else None)"

text \<open>
  Lines 39 to 45 of the destructor: the flag and the two notifications. The joins of
  lines 47 and 48 wait for both thread functions to return.
\<close>

definition destructor :: "DxvkSubmissionQueue \<Rightarrow> DxvkSubmissionQueue" where
  "destructor q = notify_all m_submitCond (notify_all m_appendCond (q\<lparr> m_stopped := True \<rparr>))"

text \<open>
  A notified producer call takes \<open>m_mutex\<close> again and evaluates its predicate: it goes
  on (and returns) when the predicate holds and sleeps again otherwise.
\<close>

definition remove_caller :: "nat \<Rightarrow> DxvkSubmissionQueue \<Rightarrow> DxvkSubmissionQueue" where
  "remove_caller i q = q\<lparr> callers := take i (callers q) @ drop (Suc i) (callers q) \<rparr>"

definition sleep_again :: "nat \<Rightarrow> DxvkSubmissionQueue \<Rightarrow> DxvkSubmissionQueue" where
  "sleep_again i q = q\<lparr> callers := (callers q)[i := (fst (callers q ! i), False)] \<rparr>"

definition wake ::
  "DxvkConfig \<Rightarrow> nat \<Rightarrow> DxvkSubmissionQueue \<Rightarrow> DxvkSubmissionQueue outcome option" where
  "wake cfg i q =
     (if i < length (callers q) \<and> snd (callers q ! i) then
        (case fst (callers q ! i) of
           In_submit submitInfo \<Rightarrow>
             if submit_pred cfg q then Some (Returns (submit_push submitInfo (remove_caller i q)))
             else Some (Waits (sleep_again i q))
         | In_synchronizeSubmission status \<Rightarrow>
             if statusSlots q status \<noteq> VK_NOT_READY then Some (Returns (remove_caller i q))
             else Some (Waits (sleep_again i q))
         | In_synchronize \<Rightarrow>
             if m_submitQueue q = [] then Some (Returns (remove_caller i q))
             else Some (Waits (sleep_again i q)))
      else None)"

subsection \<open>The submitter thread\<close>

definition called :: "DeviceCall list \<Rightarrow> DxvkSubmissionQueue \<Rightarrow> DxvkSubmissionQueue" where
  "called cs q = q\<lparr> trace := trace q @ cs \<rparr>"

definition kTimeoutPreventionLimit :: nat where
  "kTimeoutPreventionLimit = 5000"

definition kTimeoutPerTry :: nat where
  "kTimeoutPerTry = 100"

text \<open>
  Lines 184 to 193, the poll of the crash reporter, from a given value of \<open>counter\<close>
  (a \<open>uint32_t\<close> that never exceeds 5000 here).
\<close>

function aftermathPoll ::
  "(nat \<Rightarrow> GFSDK_Aftermath_CrashDump_Status) \<Rightarrow> nat \<Rightarrow> DeviceCall list" where
  "aftermathPoll aftermathStatus counter =
     (if counter < kTimeoutPreventionLimit then
        GFSDK_Aftermath_GetCrashDumpStatus (aftermathStatus counter) #
        (if aftermathStatus counter = GFSDK_Aftermath_CrashDump_Status_Finished
            \<or> aftermathStatus counter = GFSDK_Aftermath_CrashDump_Status_Unknown
         then []
         else Sleep kTimeoutPerTry #
              aftermathPoll aftermathStatus (counter + kTimeoutPerTry))
      else [])"
  by pat_completeness auto
termination
  by (relation "measure (\<lambda>(f, counter). kTimeoutPreventionLimit - counter)")
     (auto simp: kTimeoutPerTry_def)

declare aftermathPoll.simps [simp del]

text \<open>Lines 122 to 131: loop test, wait, exit test, the move out of the head.\<close>

definition submit_wait :: "DxvkSubmissionQueue \<Rightarrow> DxvkSubmissionQueue" where
  "submit_wait q =
     (if m_stopped q then q\<lparr> submitThread := S_Returned \<rparr>
      else case m_submitQueue q of
             [] \<Rightarrow> q\<lparr> submitThread := S_Asleep \<rparr>
           | entry # _ \<Rightarrow> q\<lparr> submitThread := S_Dispatch entry \<rparr>)"

text \<open>
  Lines 134 to 136 and 158 to 162: the test of \<open>m_lastError\<close>, made with neither
  mutex held. After device loss the status is set without a call; otherwise the thread
  goes on to line 138.
\<close>

definition submit_test :: "DxvkSubmitEntry \<Rightarrow> DxvkSubmissionQueue \<Rightarrow> DxvkSubmissionQueue" where
  "submit_test entry q =
     (if m_lastError q \<noteq> VK_ERROR_DEVICE_LOST
      then q\<lparr> submitThread := S_Call entry \<rparr>
      else q\<lparr> submitThread := S_Publish entry VK_ERROR_DEVICE_LOST \<rparr>)"

text \<open>
  Lines 138 to 157: the \<open>lock_guard\<close> on \<open>m_mutexQueue\<close> and the device call. The
  thread cannot step while a caller of \<open>lockDeviceQueue\<close> holds the mutex, and
  \<open>m_lastError\<close> is not read again.
\<close>

definition submit_dispatch ::
  "DxvkConfig \<Rightarrow> VkResult \<Rightarrow> DxvkSubmitEntry \<Rightarrow> DxvkSubmissionQueue
     \<Rightarrow> DxvkSubmissionQueue option" where
  "submit_dispatch cfg r entry q =
     (if m_mutexQueue q then None
      else case cmdList (e_submit entry) of
        Some c \<Rightarrow>
          Some (called [CmdList_submit c (waitSync (e_submit entry))
                          (wakeSync (e_submit entry)) r]
                  (q\<lparr> submitThread := S_Publish entry r \<rparr>))
      | None \<Rightarrow>
          (case presenter (e_present entry) of
             Some p \<Rightarrow>
               Some (called ([Reflex_setMarker (frameId (e_present entry)) VK_PRESENT_START,
                              Presenter_presentImage p r,
                              Reflex_setMarker (frameId (e_present entry)) VK_PRESENT_END]
                             @ (if presentThrottleDelay cfg > 0
                                then [Sleep (presentThrottleDelay cfg)] else []))
                       (q\<lparr> submitThread := S_Publish entry r \<rparr>))
           | None \<Rightarrow> Some (q\<lparr> submitThread := S_Publish entry VK_NOT_READY \<rparr>)))"

text \<open>Lines 164 and 165.\<close>

definition submit_publish ::
  "DxvkSubmitEntry \<Rightarrow> VkResult \<Rightarrow> DxvkSubmissionQueue \<Rightarrow> DxvkSubmissionQueue" where
  "submit_publish entry status q =
     (case e_status entry of
        Some slot \<Rightarrow> q\<lparr> submitThread := S_Complete entry status,
                        statusSlots := (statusSlots q)(slot := status) \<rparr>
      | None \<Rightarrow> q\<lparr> submitThread := S_Complete entry status \<rparr>)"

text \<open>Lines 170 to 196.\<close>

definition submit_result ::
  "DxvkConfig \<Rightarrow> (nat \<Rightarrow> GFSDK_Aftermath_CrashDump_Status) \<Rightarrow> DxvkSubmitEntry \<Rightarrow> VkResult
     \<Rightarrow> DxvkSubmissionQueue \<Rightarrow> DxvkSubmissionQueue" where
  "submit_result cfg aftermathStatus entry status q =
     (if status = VK_SUCCESS then
        (if cmdList (e_submit entry) \<noteq> None
         then q\<lparr> m_finishQueue := m_finishQueue q @ [entry] \<rparr>
         else q)
      else if status = VK_ERROR_DEVICE_LOST \<or> cmdList (e_submit entry) \<noteq> None then
        called ([Logger_err ''DxvkSubmissionQueue: Command submission failed: '' status]
                @ (if enableAftermath cfg then aftermathPoll aftermathStatus 0 else [])
                @ [Device_waitForIdle])
          (q\<lparr> m_lastError := status \<rparr>)
      else q)"

text \<open>Lines 168 to 199: the above with \<open>m_mutex\<close> held, then the pop and the notification.\<close>

definition submit_complete ::
  "DxvkConfig \<Rightarrow> (nat \<Rightarrow> GFSDK_Aftermath_CrashDump_Status) \<Rightarrow> DxvkSubmitEntry \<Rightarrow> VkResult
     \<Rightarrow> DxvkSubmissionQueue \<Rightarrow> DxvkSubmissionQueue" where
  "submit_complete cfg aftermathStatus entry status q =
     (case m_submitQueue q of
        [] \<Rightarrow> (submit_result cfg aftermathStatus entry status q)\<lparr> submitThread := S_Undefined \<rparr>
      | _ # rest \<Rightarrow>
          notify_all m_submitCond
            ((submit_result cfg aftermathStatus entry status q)
               \<lparr> m_submitQueue := rest, submitThread := S_Loop \<rparr>))"

text \<open>One step of the thread, from where it is.\<close>

definition submitCmdLists ::
  "DxvkConfig \<Rightarrow> DeviceResponse \<Rightarrow> DxvkSubmissionQueue \<Rightarrow> DxvkSubmissionQueue option" where
  "submitCmdLists cfg r q =
     (case submitThread q of
        S_Loop \<Rightarrow> Some (submit_wait q)
      | S_Asleep \<Rightarrow> None
      | S_Dispatch entry \<Rightarrow> Some (submit_test entry q)
      | S_Call entry \<Rightarrow> submit_dispatch cfg (vkResult r) entry q
      | S_Publish entry status \<Rightarrow> Some (submit_publish entry status q)
      | S_Complete entry status \<Rightarrow>
          Some (submit_complete cfg (crashDumpStatus r) entry status q)
      | S_Returned \<Rightarrow> None
      | S_Undefined \<Rightarrow> None)"

subsection \<open>The finisher thread\<close>

text \<open>
  Lines 210 to 226. A finisher woken in the wait of line 214 evaluates the same two tests
  as one at the loop head: stopped, it returns; the queue empty, it sleeps.
\<close>

definition finish_wait :: "DxvkSubmissionQueue \<Rightarrow> DxvkSubmissionQueue" where
  "finish_wait q =
     (if m_stopped q then q\<lparr> finishThread := F_Returned \<rparr>
      else case m_finishQueue q of
             [] \<Rightarrow> q\<lparr> finishThread := F_Asleep \<rparr>
           | entry # _ \<Rightarrow> q\<lparr> finishThread := F_Sync entry \<rparr>)"

text \<open>Lines 228 to 231.\<close>

definition finish_sync ::
  "VkResult \<Rightarrow> DxvkSubmitEntry \<Rightarrow> DxvkSubmissionQueue \<Rightarrow> DxvkSubmissionQueue" where
  "finish_sync r entry q =
     (if m_lastError q \<noteq> VK_ERROR_DEVICE_LOST then
        (case cmdList (e_submit entry) of
           None \<Rightarrow> q\<lparr> finishThread := F_Undefined \<rparr>
         | Some c \<Rightarrow> called [CmdList_synchronize c r] (q\<lparr> finishThread := F_Handle entry r \<rparr>))
      else q\<lparr> finishThread := F_Handle entry (m_lastError q) \<rparr>)"

text \<open>Lines 233 to 237.\<close>

definition finish_error :: "VkResult \<Rightarrow> DxvkSubmissionQueue \<Rightarrow> DxvkSubmissionQueue" where
  "finish_error status q =
     (if status \<noteq> VK_SUCCESS then
        called [Logger_err ''DxvkSubmissionQueue: Failed to sync fence: '' status,
                Device_waitForIdle]
          (q\<lparr> m_lastError := status \<rparr>)
      else q)"

text \<open>Lines 233 to 241.\<close>

definition finish_handle ::
  "DxvkSubmitEntry \<Rightarrow> VkResult \<Rightarrow> DxvkSubmissionQueue \<Rightarrow> DxvkSubmissionQueue" where
  "finish_handle entry status q =
     (case cmdList (e_submit entry) of
        None \<Rightarrow> (finish_error status q)\<lparr> finishThread := F_Undefined \<rparr>
      | Some c \<Rightarrow>
          called [CmdList_notifySignals c, CmdList_reset c, Device_recycleCommandList c]
            ((finish_error status q)\<lparr> finishThread := F_Pop \<rparr>))"

text \<open>Lines 243 to 247.\<close>

definition finish_pop :: "DxvkSubmissionQueue \<Rightarrow> DxvkSubmissionQueue" where
  "finish_pop q =
     (case m_finishQueue q of
        [] \<Rightarrow> q\<lparr> m_pending := m_pending q - 1, finishThread := F_Undefined \<rparr>
      | _ # rest \<Rightarrow>
          notify_all m_finishCond
            (q\<lparr> m_pending := m_pending q - 1, m_finishQueue := rest,
                finishThread := F_Loop \<rparr>))"

definition finishCmdLists ::
  "DeviceResponse \<Rightarrow> DxvkSubmissionQueue \<Rightarrow> DxvkSubmissionQueue option" where
  "finishCmdLists r q =
     (case finishThread q of
        F_Loop \<Rightarrow> Some (finish_wait q)
      | F_Asleep \<Rightarrow> None
      | F_Sync entry \<Rightarrow> Some (finish_sync (vkResult r) entry q)
      | F_Handle entry status \<Rightarrow> Some (finish_handle entry status q)
      | F_Pop \<Rightarrow> Some (finish_pop q)
      | F_Returned \<Rightarrow> None
      | F_Undefined \<Rightarrow> None)"

subsection \<open>The transition system\<close>

datatype action =
    Call_submit DxvkSubmitInfo
  | Call_present DxvkPresentInfo "nat option"
  | Call_synchronizeSubmission nat
  | Call_synchronize
  | Call_lockDeviceQueue
  | Call_unlockDeviceQueue
  | Call_destructor
  | Wake nat
  | Step_submitCmdLists DeviceResponse
  | Step_finishCmdLists DeviceResponse

fun step :: "DxvkConfig \<Rightarrow> action \<Rightarrow> DxvkSubmissionQueue \<Rightarrow> DxvkSubmissionQueue option" where
  "step cfg (Call_submit submitInfo) q = Some (state_of (submit cfg submitInfo q))"
| "step cfg (Call_present presentInfo status) q = Some (state_of (present presentInfo status q))"
| "step cfg (Call_synchronizeSubmission status) q = Some (state_of (synchronizeSubmission status q))"
| "step cfg Call_synchronize q = Some (state_of (synchronize q))"
| "step cfg Call_lockDeviceQueue q = lockDeviceQueue q"
| "step cfg Call_unlockDeviceQueue q = unlockDeviceQueue q"
| "step cfg Call_destructor q = Some (destructor q)"
| "step cfg (Wake i) q = map_option state_of (wake cfg i q)"
| "step cfg (Step_submitCmdLists r) q = submitCmdLists cfg r q"
| "step cfg (Step_finishCmdLists r) q = finishCmdLists r q"

fun run ::
  "DxvkConfig \<Rightarrow> action list \<Rightarrow> DxvkSubmissionQueue \<Rightarrow> DxvkSubmissionQueue option" where
  "run cfg [] q = Some q"
| "run cfg (a # as) q = (case step cfg a q of None \<Rightarrow> None | Some q' \<Rightarrow> run cfg as q')"

inductive reachable :: "DxvkConfig \<Rightarrow> DxvkSubmissionQueue \<Rightarrow> bool" for cfg where
  reachable_init: "reachable cfg (init slots)"
| reachable_step: "reachable cfg q \<Longrightarrow> step cfg a q = Some q' \<Longrightarrow> reachable cfg q'"

subsection \<open>Observations on states and runs\<close>

text \<open>The calls a step has added to the trace.\<close>

definition new_calls :: "DxvkSubmissionQueue \<Rightarrow> DxvkSubmissionQueue \<Rightarrow> DeviceCall list" where
  "new_calls q q' = drop (length (trace q)) (trace q')"

text \<open>The two calls that hand work to the device queue.\<close>

fun touches_queue :: "DeviceCall \<Rightarrow> bool" where
  "touches_queue (CmdList_submit c w k r) = True"
| "touches_queue (Presenter_presentImage p r) = True"
| "touches_queue other = False"

fun is_poll :: "DeviceCall \<Rightarrow> bool" where
  "is_poll (GFSDK_Aftermath_GetCrashDumpStatus s) = True"
| "is_poll other = False"

fun is_submitter_step :: "action \<Rightarrow> bool" where
  "is_submitter_step (Step_submitCmdLists r) = True"
| "is_submitter_step other = False"

fun is_finisher_step :: "action \<Rightarrow> bool" where
  "is_finisher_step (Step_finishCmdLists r) = True"
| "is_finisher_step other = False"

text \<open>One producer calling \<open>submit\<close> for each payload in turn; it stops in the first call that waits.\<close>

fun submit_all ::
  "DxvkConfig \<Rightarrow> DxvkSubmitInfo list \<Rightarrow> DxvkSubmissionQueue \<Rightarrow> DxvkSubmissionQueue outcome" where
  "submit_all cfg [] q = Returns q"
| "submit_all cfg (submitInfo # rest) q =
     (case submit cfg submitInfo q of
        Returns q' \<Rightarrow> submit_all cfg rest q'
      | Waits q' \<Rightarrow> Waits q')"

text \<open>The entry the submitter has moved out of the head of \<open>m_submitQueue\<close> and not yet popped.\<close>

fun in_flight :: "submit_pc \<Rightarrow> DxvkSubmitEntry option" where
  "in_flight (S_Dispatch entry) = Some entry"
| "in_flight (S_Call entry) = Some entry"
| "in_flight (S_Publish entry status) = Some entry"
| "in_flight (S_Complete entry status) = Some entry"
| "in_flight S_Loop = None"
| "in_flight S_Asleep = None"
| "in_flight S_Returned = None"
| "in_flight S_Undefined = None"

text \<open>While the submitter works on an entry, that entry is the head of \<open>m_submitQueue\<close>.\<close>

definition head_kept :: "DxvkSubmissionQueue \<Rightarrow> bool" where
  "head_kept q =
     (case in_flight (submitThread q) of
        None \<Rightarrow> submitThread q \<noteq> S_Undefined
      | Some entry \<Rightarrow> (case m_submitQueue q of [] \<Rightarrow> False | e # _ \<Rightarrow> e = entry))"

text \<open>
  An entry with a command list has the shape \<open>submit\<close> gives it: no status cell, the
  present member zero.
\<close>

definition from_submit :: "DxvkSubmitEntry \<Rightarrow> bool" where
  "from_submit e = (cmdList (e_submit e) \<noteq> None \<longrightarrow> e = entry0\<lparr> e_submit := e_submit e \<rparr>)"

text \<open>
  A submit entry with a non-null command list whose \<open>cmdList->submit\<close> is in the trace
  with result \<open>VK_SUCCESS\<close>.
\<close>

definition submitted :: "DeviceCall list \<Rightarrow> DxvkSubmitEntry \<Rightarrow> bool" where
  "submitted tr e =
     (case cmdList (e_submit e) of
        None \<Rightarrow> False
      | Some c \<Rightarrow> e = entry0\<lparr> e_submit := e_submit e \<rparr> \<and>
          CmdList_submit c (waitSync (e_submit e)) (wakeSync (e_submit e)) VK_SUCCESS \<in> set tr)"

definition held_ok :: "DeviceCall list \<Rightarrow> DxvkSubmitEntry \<Rightarrow> VkResult \<Rightarrow> bool" where
  "held_ok tr e status =
     (from_submit e \<and> (status = VK_SUCCESS \<and> cmdList (e_submit e) \<noteq> None \<longrightarrow> submitted tr e))"

fun submitter_ok :: "submit_pc \<Rightarrow> DeviceCall list \<Rightarrow> bool" where
  "submitter_ok (S_Dispatch e) tr = from_submit e"
| "submitter_ok (S_Call e) tr = from_submit e"
| "submitter_ok (S_Publish e status) tr = held_ok tr e status"
| "submitter_ok (S_Complete e status) tr = held_ok tr e status"
| "submitter_ok S_Loop tr = True"
| "submitter_ok S_Asleep tr = True"
| "submitter_ok S_Returned tr = True"
| "submitter_ok S_Undefined tr = True"

text \<open>
  The finisher works on the head of \<open>m_finishQueue\<close>, pops a queue that is not empty,
  and has not gone through a null \<open>cmdList\<close>.
\<close>

fun finisher_ok :: "finish_pc \<Rightarrow> DxvkSubmitEntry list \<Rightarrow> bool" where
  "finisher_ok (F_Sync e) es = (case es of [] \<Rightarrow> False | h # _ \<Rightarrow> h = e)"
| "finisher_ok (F_Handle e status) es = (case es of [] \<Rightarrow> False | h # _ \<Rightarrow> h = e)"
| "finisher_ok F_Pop es = (es \<noteq> [])"
| "finisher_ok F_Undefined es = False"
| "finisher_ok F_Loop es = True"
| "finisher_ok F_Asleep es = True"
| "finisher_ok F_Returned es = True"

definition finish_ok :: "DxvkSubmissionQueue \<Rightarrow> bool" where
  "finish_ok q =
     (list_all from_submit (m_submitQueue q)
      \<and> submitter_ok (submitThread q) (trace q)
      \<and> list_all (submitted (trace q)) (m_finishQueue q)
      \<and> finisher_ok (finishThread q) (m_finishQueue q))"

subsection \<open>Concrete scenarios\<close>

definition cfgA :: DxvkConfig where
  "cfgA = \<lparr> presentThrottleDelay = 0, enableAftermath = True, MaxNumQueuedCommandBuffers = 2 \<rparr>"

definition cfgB :: DxvkConfig where
  "cfgB = \<lparr> presentThrottleDelay = 0, enableAftermath = False, MaxNumQueuedCommandBuffers = 2 \<rparr>"

definition cmd :: "nat \<Rightarrow> DxvkSubmitInfo" where
  "cmd c = \<lparr> cmdList = Some c, waitSync = 0, wakeSync = 0 \<rparr>"

definition frame :: "nat \<Rightarrow> DxvkPresentInfo" where
  "frame n = \<lparr> presenter = Some 9, frameId = n \<rparr>"

text \<open>The device answers \<open>r\<close>; the crash reporter says \<open>Finished\<close> at once.\<close>

definition answer :: "VkResult \<Rightarrow> DeviceResponse" where
  "answer r = \<lparr> vkResult = r,
      crashDumpStatus = (\<lambda>counter. GFSDK_Aftermath_CrashDump_Status_Finished) \<rparr>"

text \<open>The submitter taking \<open>n\<close> steps in a row, the device answering \<open>r\<close>.\<close>

definition submitter :: "nat \<Rightarrow> VkResult \<Rightarrow> action list" where
  "submitter n r = replicate n (Step_submitCmdLists (answer r))"

definition finisher :: "nat \<Rightarrow> VkResult \<Rightarrow> action list" where
  "finisher n r = replicate n (Step_finishCmdLists (answer r))"

text \<open>
  The first entry is processed with success; the submitter takes the next entry and passes
  the test of line 136; then the fence sync of the first entry fails with
  \<open>VK_ERROR_DEVICE_LOST\<close> and the finisher stores that in \<open>m_lastError\<close>.
\<close>

definition late_loss :: "action list" where
  "late_loss = submitter 5 VK_SUCCESS @ submitter 2 VK_SUCCESS
     @ finisher 3 VK_ERROR_DEVICE_LOST"

text \<open>The state after a run from a fresh queue, all status cells \<open>VK_NOT_READY\<close>.\<close>

definition after :: "DxvkConfig \<Rightarrow> action list \<Rightarrow> DxvkSubmissionQueue" where
  "after cfg as = the (run cfg as (init (\<lambda>slot. VK_NOT_READY)))"

text \<open>
  Two submits; the first fails in \<open>cmdList->submit\<close> with the given result, and the
  submitter has taken the second entry and is about to test \<open>m_lastError\<close>.
\<close>

definition second_at_test :: "VkResult \<Rightarrow> DxvkSubmissionQueue" where
  "second_at_test r = after cfgB (Call_submit (cmd 1) # Call_submit (cmd 2) # submitter 6 r)"

text \<open>
  Two submits; the submitter has passed the test of line 136 for the second entry when the
  finisher stores \<open>VK_ERROR_DEVICE_LOST\<close> for the first.
\<close>

definition second_past_test :: DxvkSubmissionQueue where
  "second_past_test = after cfgB (Call_submit (cmd 1) # Call_submit (cmd 2) # late_loss)"

definition runs :: "DxvkConfig \<Rightarrow> action list \<Rightarrow> bool" where
  "runs cfg as = (\<not> Option.is_none (run cfg as (init (\<lambda>slot. VK_NOT_READY))))"

section \<open>Facts about the operations\<close>

lemma notify_all_fields [simp]:
  "m_stopped (notify_all c q) = m_stopped q"
  "m_pending (notify_all c q) = m_pending q"
  "m_lastError (notify_all c q) = m_lastError q"
  "m_submitQueue (notify_all c q) = m_submitQueue q"
  "m_finishQueue (notify_all c q) = m_finishQueue q"
  "m_mutexQueue (notify_all c q) = m_mutexQueue q"
  "statusSlots (notify_all c q) = statusSlots q"
  "trace (notify_all c q) = trace q"
  by (simp_all add: notify_all_def)

lemma length_callers_notify_all [simp]:
  "length (callers (notify_all c q)) = length (callers q)"
  by (simp add: notify_all_def)

text \<open>No producer call waits on \<open>m_appendCond\<close>: notifying it changes no caller.\<close>

lemma callers_notify_append [simp]: "callers (notify_all m_appendCond q) = callers q"
proof -
  have "(\<lambda>(b, n). (b, n \<or> call_cond b = m_appendCond)) = (\<lambda>x. x)"
    by (rule ext) (auto elim: call_cond.elims)
  then show ?thesis
    by (simp add: notify_all_def)
qed

lemma submit_pred_notify_all [simp]: "submit_pred cfg (notify_all c q) = submit_pred cfg q"
  by (simp add: submit_pred_def)

lemma run_append:
  "run cfg (as @ bs) q = (case run cfg as q of None \<Rightarrow> None | Some q' \<Rightarrow> run cfg bs q')"
  by (induction as arbitrary: q) (auto split: option.splits)

lemma after_step:
  assumes "runs cfg (as @ [a])"
  shows "step cfg a (after cfg as) = Some (after cfg (as @ [a]))"
  using assms
  by (auto simp: runs_def after_def run_append Option.is_none_def split: option.splits)

lemma poll_no_touch: "\<not> list_ex touches_queue (aftermathPoll f counter)"
proof (induction f counter rule: aftermathPoll.induct)
  case (1 f counter)
  then show ?case
    by (subst aftermathPoll.simps) auto
qed

lemma poll_first: "list_ex is_poll (aftermathPoll f 0)"
  by (subst aftermathPoll.simps) (simp add: kTimeoutPreventionLimit_def)

lemma trace_producer [simp]:
  "trace (state_of (submit cfg i q)) = trace q"
  "trace (state_of (present p s q)) = trace q"
  "trace (state_of (synchronizeSubmission s' q)) = trace q"
  "trace (state_of (synchronize q)) = trace q"
  "trace (destructor q) = trace q"
  by (simp_all add: submit_def submit_push_def present_def synchronizeSubmission_def
        synchronize_def destructor_def wait_on_def)

lemma trace_lock:
  "lockDeviceQueue q = Some q' \<Longrightarrow> trace q' = trace q"
  "unlockDeviceQueue q = Some q' \<Longrightarrow> trace q' = trace q"
  by (auto simp: lockDeviceQueue_def unlockDeviceQueue_def split: if_splits)

lemma trace_wake: "wake cfg i q = Some o' \<Longrightarrow> trace (state_of o') = trace q"
  by (auto simp: wake_def submit_push_def remove_caller_def sleep_again_def
        split: if_splits waiting_call.splits)

lemma new_calls_same [simp]: "trace q' = trace q \<Longrightarrow> new_calls q q' = []"
  by (simp add: new_calls_def)

text \<open>Every step only appends to the trace.\<close>

lemma submitCmdLists_appends:
  "submitCmdLists cfg r q = Some q' \<Longrightarrow> trace q' = trace q @ new_calls q q'"
  by (cases "submitThread q")
     (auto simp: submitCmdLists_def submit_wait_def submit_test_def submit_dispatch_def submit_publish_def
        submit_complete_def submit_result_def called_def new_calls_def
        split: option.splits list.splits if_splits)

lemma finishCmdLists_appends:
  "finishCmdLists r q = Some q' \<Longrightarrow> trace q' = trace q @ new_calls q q'"
  by (cases "finishThread q")
     (auto simp: finishCmdLists_def finish_wait_def finish_sync_def finish_handle_def
        finish_error_def finish_pop_def called_def new_calls_def
        split: option.splits list.splits if_splits)

lemma step_appends:
  assumes "step cfg a q = Some q'"
  shows "trace q' = trace q @ new_calls q q'"
proof (cases a)
  case (Wake i)
  with assms obtain o' where "wake cfg i q = Some o'" and "q' = state_of o'"
    by auto
  then show ?thesis
    by (simp add: trace_wake)
next
  case (Step_submitCmdLists r)
  with assms show ?thesis
    by (simp add: submitCmdLists_appends)
next
  case (Step_finishCmdLists r)
  with assms show ?thesis
    by (simp add: finishCmdLists_appends)
qed (use assms in \<open>auto simp: trace_lock\<close>)

text \<open>The device queue is handed work in one place only: lines 142 and 150.\<close>

lemma submitCmdLists_touches:
  assumes "submitCmdLists cfg r q = Some q'" and "list_ex touches_queue (new_calls q q')"
  shows "\<exists>entry. submitThread q = S_Call entry"
  using assms
  by (cases "submitThread q")
     (auto simp: submitCmdLists_def submit_wait_def submit_test_def submit_dispatch_def submit_publish_def
        submit_complete_def submit_result_def called_def new_calls_def poll_no_touch
        split: option.splits list.splits if_splits)

lemma finishCmdLists_touches:
  "finishCmdLists r q = Some q' \<Longrightarrow> \<not> list_ex touches_queue (new_calls q q')"
  by (cases "finishThread q")
     (auto simp: finishCmdLists_def finish_wait_def finish_sync_def finish_handle_def
        finish_error_def finish_pop_def called_def new_calls_def
        split: option.splits list.splits if_splits)

lemma finishCmdLists_polls:
  "finishCmdLists r q = Some q' \<Longrightarrow> \<not> list_ex is_poll (new_calls q q')"
  by (cases "finishThread q")
     (auto simp: finishCmdLists_def finish_wait_def finish_sync_def finish_handle_def
        finish_error_def finish_pop_def called_def new_calls_def
        split: option.splits list.splits if_splits)

lemma step_touches:
  assumes "step cfg a q = Some q'" and "list_ex touches_queue (new_calls q q')"
  shows "\<exists>entry r. submitThread q = S_Call entry \<and> a = Step_submitCmdLists r"
proof (cases a)
  case (Wake i)
  with assms(1) obtain o' where "wake cfg i q = Some o'" and "q' = state_of o'"
    by auto
  with assms(2) show ?thesis
    by (simp add: trace_wake)
next
  case (Step_submitCmdLists r)
  with assms show ?thesis
    using submitCmdLists_touches by auto
next
  case (Step_finishCmdLists r)
  with assms show ?thesis
    using finishCmdLists_touches by auto
qed (use assms in \<open>auto simp: trace_lock\<close>)

lemma reachable_run:
  "reachable cfg q \<Longrightarrow> run cfg as q = Some q' \<Longrightarrow> reachable cfg q'"
proof (induction as arbitrary: q)
  case Nil
  then show ?case by simp
next
  case (Cons a as)
  then show ?case
    by (auto split: option.splits intro: reachable_step)
qed

lemma reachable_after: "runs cfg as \<Longrightarrow> reachable cfg (after cfg as)"
  using reachable_run [OF reachable_init]
  by (auto simp: runs_def after_def Option.is_none_def)

subsection \<open>The head of the pending queue stays while it is processed\<close>

lemma notify_all_in_flight [simp]:
  "in_flight (submitThread (notify_all c q)) = in_flight (submitThread q)"
  by (simp add: notify_all_def)

lemma notify_all_S_Undefined [simp]:
  "(submitThread (notify_all c q) = S_Undefined) = (submitThread q = S_Undefined)"
  by (simp add: notify_all_def)

lemma head_kept_notify_all [simp]: "head_kept (notify_all c q) = head_kept q"
  by (simp add: head_kept_def split: option.splits)

lemma head_kept_init: "head_kept (init slots)"
  by (simp add: head_kept_def init_def)

lemma head_kept_producer:
  "head_kept q \<Longrightarrow> head_kept (state_of (submit cfg i q))"
  "head_kept q \<Longrightarrow> head_kept (state_of (present p s q))"
  "head_kept q \<Longrightarrow> head_kept (state_of (synchronizeSubmission s' q))"
  "head_kept q \<Longrightarrow> head_kept (state_of (synchronize q))"
  "head_kept q \<Longrightarrow> head_kept (destructor q)"
  by (auto simp: head_kept_def submit_def submit_push_def present_def synchronizeSubmission_def
        synchronize_def destructor_def wait_on_def split: option.splits list.splits)

lemma head_kept_lock:
  "head_kept q \<Longrightarrow> lockDeviceQueue q = Some q' \<Longrightarrow> head_kept q'"
  "head_kept q \<Longrightarrow> unlockDeviceQueue q = Some q' \<Longrightarrow> head_kept q'"
  by (auto simp: head_kept_def lockDeviceQueue_def unlockDeviceQueue_def
        split: option.splits list.splits if_splits)

lemma head_kept_wake:
  "head_kept q \<Longrightarrow> wake cfg i q = Some o' \<Longrightarrow> head_kept (state_of o')"
  by (auto simp: head_kept_def wake_def submit_push_def remove_caller_def sleep_again_def
        split: option.splits list.splits if_splits waiting_call.splits)

lemma head_kept_submitCmdLists:
  "head_kept q \<Longrightarrow> submitCmdLists cfg r q = Some q' \<Longrightarrow> head_kept q'"
  by (auto simp: head_kept_def submitCmdLists_def submit_wait_def submit_test_def submit_dispatch_def
        submit_publish_def submit_complete_def submit_result_def called_def
        split: option.splits list.splits if_splits submit_pc.splits)

lemma head_kept_finishCmdLists:
  "head_kept q \<Longrightarrow> finishCmdLists r q = Some q' \<Longrightarrow> head_kept q'"
  by (auto simp: head_kept_def finishCmdLists_def finish_wait_def finish_sync_def
        finish_handle_def finish_error_def finish_pop_def called_def
        split: option.splits list.splits if_splits finish_pc.splits)

lemma head_kept_step:
  assumes "head_kept q" and "step cfg a q = Some q'"
  shows "head_kept q'"
proof (cases a)
  case (Wake i)
  with assms obtain o' where "wake cfg i q = Some o'" and "q' = state_of o'"
    by auto
  with assms(1) show ?thesis
    using head_kept_wake by blast
qed (use assms in \<open>auto simp: head_kept_producer
       intro: head_kept_lock head_kept_submitCmdLists head_kept_finishCmdLists\<close>)

lemma reachable_head_kept: "reachable cfg q \<Longrightarrow> head_kept q"
  by (induction rule: reachable.induct) (auto simp: head_kept_init intro: head_kept_step)

lemma head_keptD:
  "head_kept q \<Longrightarrow> in_flight (submitThread q) = Some entry
     \<Longrightarrow> \<exists>rest. m_submitQueue q = entry # rest"
  by (auto simp: head_kept_def split: list.splits)

text \<open>
  The submitter gives up the entry it works on only in its step of lines 168 to 199; no
  other step of any thread changes which entry that is.
\<close>

lemma in_flight_step:
  assumes "step cfg a q = Some q'" and "in_flight (submitThread q) = Some entry"
    and "\<not> (\<exists>status r. submitThread q = S_Complete entry status \<and> a = Step_submitCmdLists r)"
  shows "in_flight (submitThread q') = Some entry"
proof (cases a)
  case (Wake i)
  with assms(1) obtain o' where "wake cfg i q = Some o'" and "q' = state_of o'"
    by auto
  with assms(2) show ?thesis
    by (auto simp: wake_def submit_push_def remove_caller_def sleep_again_def
          split: if_splits waiting_call.splits)
next
  case (Step_submitCmdLists r)
  with assms show ?thesis
    by (cases "submitThread q")
       (auto simp: submitCmdLists_def submit_test_def submit_dispatch_def submit_publish_def called_def
          split: option.splits if_splits)
next
  case (Step_finishCmdLists r)
  with assms show ?thesis
    by (cases "finishThread q")
       (auto simp: finishCmdLists_def finish_wait_def finish_sync_def finish_handle_def
          finish_error_def finish_pop_def called_def
          split: option.splits list.splits if_splits)
qed (use assms in \<open>auto simp: submit_def submit_push_def present_def synchronizeSubmission_def
       synchronize_def destructor_def wait_on_def lockDeviceQueue_def unlockDeviceQueue_def
       split: if_splits\<close>)

subsection \<open>What enters the completion queue\<close>

lemma submitted_append: "submitted tr e \<Longrightarrow> submitted (tr @ cs) e"
  by (auto simp: submitted_def split: option.splits)

lemma list_all_submitted_append:
  "list_all (submitted tr) es \<Longrightarrow> list_all (submitted (tr @ cs)) es"
  by (induction es) (auto intro: submitted_append)

lemma held_ok_append: "held_ok tr e status \<Longrightarrow> held_ok (tr @ cs) e status"
  by (auto simp: held_ok_def intro: submitted_append)

lemma submitter_ok_append: "submitter_ok pc tr \<Longrightarrow> submitter_ok pc (tr @ cs)"
  by (cases pc) (auto intro: held_ok_append)

lemma submitter_ok_notify_all [simp]:
  "submitter_ok (submitThread (notify_all c q)) tr = submitter_ok (submitThread q) tr"
  by (cases "submitThread q") (simp_all add: notify_all_def)

lemma finisher_ok_notify_all [simp]:
  "finisher_ok (finishThread (notify_all c q)) es = finisher_ok (finishThread q) es"
  by (cases "finishThread q") (simp_all add: notify_all_def)

lemma finish_ok_notify_all [simp]: "finish_ok (notify_all c q) = finish_ok q"
  by (simp add: finish_ok_def)

lemma finish_ok_init: "finish_ok (init slots)"
  by (simp add: finish_ok_def init_def)

lemma from_submit_entry0 [simp]:
  "from_submit (entry0\<lparr> e_submit := i \<rparr>)"
  "from_submit (entry0\<lparr> e_status := s, e_present := p \<rparr>)"
  by (simp_all add: from_submit_def entry0_def)

lemma finisher_ok_append: "finisher_ok pc es \<Longrightarrow> finisher_ok pc (es @ [e])"
  by (cases pc) (auto split: list.splits)

lemma from_submit_Some:
  "from_submit e \<Longrightarrow> cmdList (e_submit e) = Some c \<Longrightarrow> e = entry0\<lparr> e_submit := e_submit e \<rparr>"
  by (simp add: from_submit_def)

lemma finish_ok_producer:
  "finish_ok q \<Longrightarrow> finish_ok (state_of (submit cfg i q))"
  "finish_ok q \<Longrightarrow> finish_ok (state_of (present p s q))"
  "finish_ok q \<Longrightarrow> finish_ok (state_of (synchronizeSubmission s' q))"
  "finish_ok q \<Longrightarrow> finish_ok (state_of (synchronize q))"
  "finish_ok q \<Longrightarrow> finish_ok (destructor q)"
  by (simp_all add: submit_def submit_push_def present_def synchronizeSubmission_def
        synchronize_def destructor_def wait_on_def finish_ok_def)

lemma finish_ok_lock:
  "finish_ok q \<Longrightarrow> lockDeviceQueue q = Some q' \<Longrightarrow> finish_ok q'"
  "finish_ok q \<Longrightarrow> unlockDeviceQueue q = Some q' \<Longrightarrow> finish_ok q'"
  by (auto simp: finish_ok_def lockDeviceQueue_def unlockDeviceQueue_def split: if_splits)

lemma finish_ok_wake:
  "finish_ok q \<Longrightarrow> wake cfg i q = Some o' \<Longrightarrow> finish_ok (state_of o')"
  by (auto simp: wake_def submit_push_def remove_caller_def sleep_again_def finish_ok_def
        split: if_splits waiting_call.splits)

lemma finish_ok_submitCmdLists:
  "finish_ok q \<Longrightarrow> submitCmdLists cfg r q = Some q' \<Longrightarrow> finish_ok q'"
  by (cases "submitThread q")
     (auto simp: finish_ok_def submitCmdLists_def submit_wait_def submit_test_def submit_dispatch_def
        submit_publish_def submit_complete_def submit_result_def called_def held_ok_def
        submitted_def list_all_submitted_append finisher_ok_append
        split: option.splits list.splits if_splits
        intro: submitted_append list_all_submitted_append finisher_ok_append
        dest: from_submit_Some)

lemma finish_ok_finishCmdLists:
  "finish_ok q \<Longrightarrow> finishCmdLists r q = Some q' \<Longrightarrow> finish_ok q'"
  by (cases "finishThread q")
     (auto simp: finish_ok_def finishCmdLists_def finish_wait_def finish_sync_def
        finish_handle_def finish_error_def finish_pop_def called_def
        submitted_def submitter_ok_append
        split: option.splits list.splits if_splits
        intro: submitted_append list_all_submitted_append submitter_ok_append)

lemma finish_ok_step:
  assumes "finish_ok q" and "step cfg a q = Some q'"
  shows "finish_ok q'"
proof (cases a)
  case (Wake i)
  with assms obtain o' where "wake cfg i q = Some o'" and "q' = state_of o'"
    by auto
  with assms(1) show ?thesis
    using finish_ok_wake by blast
qed (use assms in \<open>auto simp: finish_ok_producer
       intro: finish_ok_lock finish_ok_submitCmdLists finish_ok_finishCmdLists\<close>)

lemma reachable_finish_ok: "reachable cfg q \<Longrightarrow> finish_ok q"
  by (induction rule: reachable.induct) (auto simp: finish_ok_init intro: finish_ok_step)

lemma submittedD:
  "submitted tr e \<Longrightarrow> \<exists>c. cmdList (e_submit e) = Some c \<and> e = entry0\<lparr> e_submit := e_submit e \<rparr>
     \<and> CmdList_submit c (waitSync (e_submit e)) (wakeSync (e_submit e)) VK_SUCCESS \<in> set tr"
  by (auto simp: submitted_def split: option.splits)

text \<open>The finisher's steps on an entry that has a command list never end in the undefined state.\<close>

lemma finishCmdLists_defined:
  assumes "finisher_ok (finishThread q) (m_finishQueue q)"
    and "list_all (submitted (trace q)) (m_finishQueue q)"
    and "finishCmdLists r q = Some q'"
  shows "finishThread q' \<noteq> F_Undefined"
  using assms
  by (cases "finishThread q")
     (auto simp: finishCmdLists_def finish_wait_def finish_sync_def finish_handle_def
        finish_error_def finish_pop_def called_def notify_all_def submitted_def
        split: option.splits list.splits if_splits)

subsection \<open>Producers asleep in \<open>submit\<close>\<close>

lemma callers_notify_other:
  assumes "c \<noteq> m_finishCond" and "i < length (callers q)"
    and "callers q ! i = (In_submit info, False)"
  shows "callers (notify_all c q) ! i = (In_submit info, False)"
  using assms by (simp add: notify_all_def)

lemma nth_remove:
  assumes "k < length xs" and "i < length xs" and "i \<noteq> k"
  shows "\<exists>j\<le>i. j < length (take k xs @ drop (Suc k) xs)
           \<and> (take k xs @ drop (Suc k) xs) ! j = xs ! i"
proof (cases "i < k")
  case True
  with assms have "i < length (take k xs @ drop (Suc k) xs)
      \<and> (take k xs @ drop (Suc k) xs) ! i = xs ! i"
    by (simp add: nth_append)
  then show ?thesis by blast
next
  case False
  with assms have "k < i" by simp
  with assms have "i - 1 < length (take k xs @ drop (Suc k) xs)
      \<and> (take k xs @ drop (Suc k) xs) ! (i - 1) = xs ! i"
    by (auto simp: nth_append min_def)
  moreover have "i - 1 \<le> i" by simp
  ultimately show ?thesis by blast
qed

lemma asleep_wake:
  assumes "wake cfg k q = Some o'" and "i < length (callers q)"
    and "callers q ! i = (In_submit info, False)"
  shows "\<exists>j\<le>i. j < length (callers (state_of o'))
           \<and> callers (state_of o') ! j = (In_submit info, False)"
proof -
  from assms(1) have k: "k < length (callers q)" and "snd (callers q ! k)"
    by (auto simp: wake_def split: if_splits)
  with assms(3) have ne: "i \<noteq> k"
    by auto
  have rem: "\<exists>j\<le>i. j < length (callers (remove_caller k q))
           \<and> callers (remove_caller k q) ! j = (In_submit info, False)"
    using nth_remove [OF k assms(2) ne] assms(3) by (simp add: remove_caller_def)
  have slp: "\<exists>j\<le>i. j < length (callers (sleep_again k q))
           \<and> callers (sleep_again k q) ! j = (In_submit info, False)"
    using assms(2,3) ne by (auto simp: sleep_again_def)
  from assms(1) consider
      (push) x where "o' = Returns (submit_push x (remove_caller k q))"
    | (ret) "o' = Returns (remove_caller k q)"
    | (wait) "o' = Waits (sleep_again k q)"
    by (auto simp: wake_def split: if_splits waiting_call.splits)
  then show ?thesis
  proof cases
    case push
    then show ?thesis using rem by (simp add: submit_push_def)
  next
    case ret
    then show ?thesis using rem by simp
  next
    case wait
    then show ?thesis using slp by simp
  qed
qed

lemma asleep_submitCmdLists:
  assumes "submitCmdLists cfg r q = Some q'" and "i < length (callers q)"
    and "callers q ! i = (In_submit info, False)"
  shows "i < length (callers q') \<and> callers q' ! i = (In_submit info, False)"
  using assms
  by (cases "submitThread q")
     (auto simp: submitCmdLists_def submit_wait_def submit_test_def submit_dispatch_def submit_publish_def
        submit_complete_def submit_result_def called_def callers_notify_other
        split: option.splits list.splits if_splits)

lemma asleep_finishCmdLists:
  assumes "finishCmdLists r q = Some q'" and "finishThread q \<noteq> F_Pop"
  shows "callers q' = callers q"
  using assms
  by (cases "finishThread q")
     (auto simp: finishCmdLists_def finish_wait_def finish_sync_def finish_handle_def
        finish_error_def called_def split: option.splits list.splits if_splits)

text \<open>
  A producer asleep in the wait of \<open>submit\<close> stays asleep through every step except the
  finisher's step of lines 243 to 247; its place among the waiting calls can only move down.
\<close>

lemma asleep_step:
  assumes "step cfg a q = Some q'" and "i < length (callers q)"
    and "callers q ! i = (In_submit info, False)"
    and "\<not> (finishThread q = F_Pop \<and> is_finisher_step a)"
  shows "\<exists>j\<le>i. j < length (callers q') \<and> callers q' ! j = (In_submit info, False)"
proof (cases a)
  case (Call_submit x)
  with assms have "i < length (callers q') \<and> callers q' ! i = (In_submit info, False)"
    by (auto simp: submit_def submit_push_def wait_on_def nth_append)
  then show ?thesis by blast
next
  case (Call_present x s)
  with assms have "i < length (callers q') \<and> callers q' ! i = (In_submit info, False)"
    by (auto simp: present_def)
  then show ?thesis by blast
next
  case (Call_synchronizeSubmission s)
  with assms have "i < length (callers q') \<and> callers q' ! i = (In_submit info, False)"
    by (auto simp: synchronizeSubmission_def wait_on_def nth_append)
  then show ?thesis by blast
next
  case Call_synchronize
  with assms have "i < length (callers q') \<and> callers q' ! i = (In_submit info, False)"
    by (auto simp: synchronize_def wait_on_def nth_append)
  then show ?thesis by blast
next
  case Call_lockDeviceQueue
  with assms have "i < length (callers q') \<and> callers q' ! i = (In_submit info, False)"
    by (auto simp: lockDeviceQueue_def split: if_splits)
  then show ?thesis by blast
next
  case Call_unlockDeviceQueue
  with assms have "i < length (callers q') \<and> callers q' ! i = (In_submit info, False)"
    by (auto simp: unlockDeviceQueue_def split: if_splits)
  then show ?thesis by blast
next
  case Call_destructor
  with assms have "i < length (callers q') \<and> callers q' ! i = (In_submit info, False)"
    by (auto simp: destructor_def callers_notify_other)
  then show ?thesis by blast
next
  case (Wake k)
  with assms(1) obtain o' where "wake cfg k q = Some o'" and "q' = state_of o'"
    by auto
  then show ?thesis
    using asleep_wake assms(2,3) by blast
next
  case (Step_submitCmdLists r)
  with assms have "i < length (callers q') \<and> callers q' ! i = (In_submit info, False)"
    using asleep_submitCmdLists by auto
  then show ?thesis by blast
next
  case (Step_finishCmdLists r)
  with assms have "callers q' = callers q"
    using asleep_finishCmdLists by auto
  with assms(2,3) show ?thesis by auto
qed

lemma asleep_run:
  assumes "run cfg as q = Some q'" and "\<not> list_ex is_finisher_step as"
    and "i < length (callers q)" and "callers q ! i = (In_submit info, False)"
  shows "\<exists>j\<le>i. j < length (callers q') \<and> callers q' ! j = (In_submit info, False)"
  using assms
proof (induction as arbitrary: q i)
  case Nil
  then show ?case by auto
next
  case (Cons a as)
  from Cons.prems(1) obtain q1 where s: "step cfg a q = Some q1" and r: "run cfg as q1 = Some q'"
    by (auto split: option.splits)
  from Cons.prems(2) have na: "\<not> (finishThread q = F_Pop \<and> is_finisher_step a)"
    and nas: "\<not> list_ex is_finisher_step as"
    by auto
  from asleep_step [OF s Cons.prems(3,4) na]
  obtain j where "j \<le> i" and "j < length (callers q1)"
    and "callers q1 ! j = (In_submit info, False)"
    by blast
  with Cons.IH [OF r nas] obtain j' where "j' \<le> j" and "j' < length (callers q')"
    and "callers q' ! j' = (In_submit info, False)"
    by blast
  with \<open>j \<le> i\<close> show ?case
    by (meson le_trans)
qed

lemma submit_all_fits:
  assumes "length (m_submitQueue q) + length (m_finishQueue q) + length infos
             \<le> MaxNumQueuedCommandBuffers cfg + 1"
  shows "\<exists>q'. submit_all cfg infos q = Returns q'
           \<and> m_submitQueue q' = m_submitQueue q @ map (\<lambda>i. entry0\<lparr> e_submit := i \<rparr>) infos
           \<and> m_finishQueue q' = m_finishQueue q
           \<and> callers q' = callers q"
  using assms
proof (induction infos arbitrary: q)
  case Nil
  then show ?case by simp
next
  case (Cons i infos)
  then have now: "submit cfg i q = Returns (submit_push i q)"
    by (simp add: submit_def submit_pred_def)
  have "length (m_submitQueue (submit_push i q)) + length (m_finishQueue (submit_push i q))
          + length infos \<le> MaxNumQueuedCommandBuffers cfg + 1"
    using Cons.prems by (simp add: submit_push_def)
  from Cons.IH [OF this] now show ?case
    by (auto simp: submit_push_def)
qed

lemma after_run:
  assumes "runs cfg as" and "runs cfg (as @ bs)"
  shows "run cfg bs (after cfg as) = Some (after cfg (as @ bs))"
  using assms
  by (auto simp: runs_def after_def run_append Option.is_none_def split: option.splits)

subsection \<open>Steps of the other threads while the submitter holds an entry\<close>

lemma submitThread_notify_all:
  "in_flight (submitThread q) \<noteq> None \<Longrightarrow> submitThread (notify_all c q) = submitThread q"
  by (auto simp: notify_all_def)

lemma other_step:
  assumes "step cfg a q = Some q'" and "\<not> is_submitter_step a"
  shows "statusSlots q' = statusSlots q"
    and "in_flight (submitThread q) \<noteq> None \<Longrightarrow> submitThread q' = submitThread q"
proof -
  have "statusSlots q' = statusSlots q
    \<and> (in_flight (submitThread q) \<noteq> None \<longrightarrow> submitThread q' = submitThread q)"
  proof (cases a)
    case (Wake i)
    with assms(1) obtain o' where "wake cfg i q = Some o'" and "q' = state_of o'"
      by auto
    then show ?thesis
      by (auto simp: wake_def submit_push_def remove_caller_def sleep_again_def
            submitThread_notify_all split: if_splits waiting_call.splits)
  next
    case (Step_submitCmdLists r)
    with assms(2) show ?thesis by simp
  next
    case (Step_finishCmdLists r)
    with assms(1) show ?thesis
      by (cases "finishThread q")
         (auto simp: finishCmdLists_def finish_wait_def finish_sync_def finish_handle_def
            finish_error_def finish_pop_def called_def submitThread_notify_all
            split: option.splits list.splits if_splits)
  qed (use assms(1) in \<open>auto simp: submit_def submit_push_def present_def
         synchronizeSubmission_def synchronize_def destructor_def wait_on_def
         lockDeviceQueue_def unlockDeviceQueue_def submitThread_notify_all
         split: if_splits\<close>)
  then show "statusSlots q' = statusSlots q"
    and "in_flight (submitThread q) \<noteq> None \<Longrightarrow> submitThread q' = submitThread q"
    by simp_all
qed

lemma other_step_no_touch:
  assumes "step cfg a q = Some q'" and "\<not> is_submitter_step a"
  shows "\<exists>cs. trace q' = trace q @ cs \<and> \<not> list_ex touches_queue cs"
proof -
  have "\<not> list_ex touches_queue (new_calls q q')"
    using step_touches [OF assms(1)] assms(2) by auto
  with step_appends [OF assms(1)] show ?thesis
    by blast
qed

text \<open>
  A run in which the submitter takes no step leaves the submitter where it is, stores
  nothing in a status cell and hands nothing to the device queue.
\<close>

lemma quiet_run:
  assumes "run cfg as q = Some q'" and "\<not> list_ex is_submitter_step as"
    and "in_flight (submitThread q) \<noteq> None"
  shows "submitThread q' = submitThread q \<and> statusSlots q' = statusSlots q
    \<and> (\<exists>cs. trace q' = trace q @ cs \<and> \<not> list_ex touches_queue cs)"
  using assms
proof (induction as arbitrary: q)
  case Nil
  then show ?case by simp
next
  case (Cons a as)
  from Cons.prems(1) obtain q1 where s: "step cfg a q = Some q1" and r: "run cfg as q1 = Some q'"
    by (auto split: option.splits)
  from Cons.prems(2) have na: "\<not> is_submitter_step a" and nas: "\<not> list_ex is_submitter_step as"
    by auto
  have pc: "submitThread q1 = submitThread q"
    using other_step(2) [OF s na Cons.prems(3)] .
  have sl: "statusSlots q1 = statusSlots q"
    using other_step(1) [OF s na] .
  obtain cs1 where t1: "trace q1 = trace q @ cs1" and n1: "\<not> list_ex touches_queue cs1"
    using other_step_no_touch [OF s na] by blast
  have "in_flight (submitThread q1) \<noteq> None"
    using pc Cons.prems(3) by simp
  from Cons.IH [OF r nas this] obtain cs2 where "submitThread q' = submitThread q1"
    and "statusSlots q' = statusSlots q1"
    and t2: "trace q' = trace q1 @ cs2" and n2: "\<not> list_ex touches_queue cs2"
    by blast
  with pc sl t1 n1 have "submitThread q' = submitThread q \<and> statusSlots q' = statusSlots q
    \<and> trace q' = trace q @ (cs1 @ cs2) \<and> \<not> list_ex touches_queue (cs1 @ cs2)"
    by simp
  then show ?case
    by blast
qed

lemma in_flight_None_notify_all:
  "in_flight (submitThread q) = None \<Longrightarrow> in_flight (submitThread (notify_all c q)) = None"
  by (auto simp: notify_all_def)

text \<open>No step of another thread gives the submitter an entry.\<close>

lemma idle_other_step:
  assumes "step cfg a q = Some q'" and "\<not> is_submitter_step a"
    and "in_flight (submitThread q) = None"
  shows "in_flight (submitThread q') = None"
proof (cases a)
  case (Wake i)
  with assms(1) obtain o' where "wake cfg i q = Some o'" and "q' = state_of o'"
    by auto
  with assms(3) show ?thesis
    by (auto simp: wake_def submit_push_def remove_caller_def sleep_again_def
          in_flight_None_notify_all split: if_splits waiting_call.splits)
next
  case (Step_submitCmdLists r)
  with assms(2) show ?thesis by simp
next
  case (Step_finishCmdLists r)
  with assms(1,3) show ?thesis
    by (cases "finishThread q")
       (auto simp: finishCmdLists_def finish_wait_def finish_sync_def finish_handle_def
          finish_error_def finish_pop_def called_def in_flight_None_notify_all
          split: option.splits list.splits if_splits)
qed (use assms(1,3) in \<open>auto simp: submit_def submit_push_def present_def
       synchronizeSubmission_def synchronize_def destructor_def wait_on_def
       lockDeviceQueue_def unlockDeviceQueue_def in_flight_None_notify_all
       split: if_splits\<close>)

section \<open>The claims\<close>

text \<open>
  C2. At a quiescent point \<open>m_pending\<close> should equal the number of submit entries in
  \<open>m_submitQueue\<close> plus the number of entries in \<open>m_finishQueue\<close>, also after a
  submit entry's device submission has failed and the entry has been drained. The code
  at the failing input: one \<open>submit\<close> of command list 1, whose \<open>cmdList->submit\<close>
  returns a failure. The submitter drains the entry and goes to sleep, the finisher sleeps on
  its empty queue, no producer call is in progress, both queues are empty, and
  \<open>m_pending\<close> is still 1: only \<open>finishCmdLists\<close> decrements it, and a failed
  entry never gets there.
\<close>

theorem C2_pending_after_failed_submit:
  "runs cfgB (Call_submit (cmd 1) # submitter 6 (VK_RESULT (- 2)) @ finisher 1 VK_SUCCESS)
   \<and> submitThread (after cfgB (Call_submit (cmd 1) # submitter 6 (VK_RESULT (- 2))
        @ finisher 1 VK_SUCCESS)) = S_Asleep
   \<and> finishThread (after cfgB (Call_submit (cmd 1) # submitter 6 (VK_RESULT (- 2))
        @ finisher 1 VK_SUCCESS)) = F_Asleep
   \<and> callers (after cfgB (Call_submit (cmd 1) # submitter 6 (VK_RESULT (- 2))
        @ finisher 1 VK_SUCCESS)) = []
   \<and> m_submitQueue (after cfgB (Call_submit (cmd 1) # submitter 6 (VK_RESULT (- 2))
        @ finisher 1 VK_SUCCESS)) = []
   \<and> m_finishQueue (after cfgB (Call_submit (cmd 1) # submitter 6 (VK_RESULT (- 2))
        @ finisher 1 VK_SUCCESS)) = []
   \<and> m_pending (after cfgB (Call_submit (cmd 1) # submitter 6 (VK_RESULT (- 2))
        @ finisher 1 VK_SUCCESS)) = 1"
  by code_simp

text \<open>
  C5, as the code has it. Present entries are admitted without a test, but they do count
  toward the quantity that gates \<open>submit\<close>: its predicate compares the number of all
  entries of \<open>m_submitQueue\<close>, submit and present alike, plus that of
  \<open>m_finishQueue\<close> with \<open>MaxNumQueuedCommandBuffers\<close>. With the two queues holding
  exactly that many entries, one more \<open>present\<close> makes the next \<open>submit\<close> wait.
\<close>

theorem C5_present_entries_count:
  assumes "length (m_submitQueue q) + length (m_finishQueue q) = MaxNumQueuedCommandBuffers cfg"
  shows "submit cfg submitInfo q = Returns (submit_push submitInfo q)
    \<and> submit cfg submitInfo (state_of (present presentInfo status q))
        = Waits (wait_on (In_submit submitInfo) (state_of (present presentInfo status q)))"
  using assms by (simp add: submit_def present_def submit_pred_def)

theorem C5_present_entries_count_witness:
  "length (m_submitQueue (after cfgA [Call_present (frame 1) None, Call_present (frame 2) None]))
     + length (m_finishQueue (after cfgA [Call_present (frame 1) None, Call_present (frame 2) None]))
     = MaxNumQueuedCommandBuffers cfgA
   \<and> submit cfgA (cmd 1)
        (state_of (present (frame 3) None
           (after cfgA [Call_present (frame 1) None, Call_present (frame 2) None])))
      = Waits (wait_on (In_submit (cmd 1))
          (state_of (present (frame 3) None
             (after cfgA [Call_present (frame 1) None, Call_present (frame 2) None]))))"
proof -
  have h: "length (m_submitQueue (after cfgA [Call_present (frame 1) None, Call_present (frame 2) None]))
     + length (m_finishQueue (after cfgA [Call_present (frame 1) None, Call_present (frame 2) None]))
     = MaxNumQueuedCommandBuffers cfgA"
    by code_simp
  show ?thesis
    using h C5_present_entries_count [OF h, of "cmd 1" "frame 3" None] by simp
qed

text \<open>
  C5 as stated fails: with three present entries in \<open>m_submitQueue\<close>, no submit entry
  anywhere and \<open>MaxNumQueuedCommandBuffers = 2\<close>, a call of \<open>submit\<close> waits.
\<close>

theorem C5_counterexample:
  "runs cfgA [Call_present (frame 1) None, Call_present (frame 2) None, Call_present (frame 3) None]
   \<and> map (cmdList \<circ> e_submit) (m_submitQueue (after cfgA
        [Call_present (frame 1) None, Call_present (frame 2) None, Call_present (frame 3) None]))
      = [None, None, None]
   \<and> m_finishQueue (after cfgA
        [Call_present (frame 1) None, Call_present (frame 2) None, Call_present (frame 3) None]) = []
   \<and> m_pending (after cfgA
        [Call_present (frame 1) None, Call_present (frame 2) None, Call_present (frame 3) None]) = 0
   \<and> MaxNumQueuedCommandBuffers cfgA = 2
   \<and> submit cfgA (cmd 1) (after cfgA
        [Call_present (frame 1) None, Call_present (frame 2) None, Call_present (frame 3) None])
      = Waits (wait_on (In_submit (cmd 1)) (after cfgA
        [Call_present (frame 1) None, Call_present (frame 2) None, Call_present (frame 3) None]))"
proof -
  have "\<not> submit_pred cfgA (after cfgA
        [Call_present (frame 1) None, Call_present (frame 2) None, Call_present (frame 3) None])"
    by code_simp
  moreover have "runs cfgA [Call_present (frame 1) None, Call_present (frame 2) None, Call_present (frame 3) None]
   \<and> map (cmdList \<circ> e_submit) (m_submitQueue (after cfgA
        [Call_present (frame 1) None, Call_present (frame 2) None, Call_present (frame 3) None]))
      = [None, None, None]
   \<and> m_finishQueue (after cfgA
        [Call_present (frame 1) None, Call_present (frame 2) None, Call_present (frame 3) None]) = []
   \<and> m_pending (after cfgA
        [Call_present (frame 1) None, Call_present (frame 2) None, Call_present (frame 3) None]) = 0
   \<and> MaxNumQueuedCommandBuffers cfgA = 2"
    by code_simp
  ultimately show ?thesis
    by (simp add: submit_def)
qed

text \<open>
  C8. \<open>present\<close> has no wait: whatever the state of the queues, also with
  \<open>MaxNumQueuedCommandBuffers\<close> or more entries in them, the call returns, with its
  entry appended to \<open>m_submitQueue\<close> and no producer call added to the waiting ones.
\<close>

theorem C8_present_never_waits:
  "\<exists>q'. present presentInfo status q = Returns q'
     \<and> m_submitQueue q' = m_submitQueue q @ [entry0\<lparr> e_status := status, e_present := presentInfo \<rparr>]
     \<and> m_finishQueue q' = m_finishQueue q
     \<and> m_pending q' = m_pending q
     \<and> callers q' = callers q
     \<and> step cfg (Call_present presentInfo status) q = Some q'"
  by (simp add: present_def)

theorem C8_present_never_waits_witness:
  "length (m_submitQueue (after cfgA [Call_submit (cmd 1), Call_submit (cmd 2)]))
     + length (m_finishQueue (after cfgA [Call_submit (cmd 1), Call_submit (cmd 2)]))
     = MaxNumQueuedCommandBuffers cfgA
   \<and> (\<exists>q'. present (frame 1) (Some 5) (after cfgA [Call_submit (cmd 1), Call_submit (cmd 2)])
         = Returns q'
       \<and> length (m_submitQueue q') + length (m_finishQueue q') = 3
       \<and> callers q' = [])"
proof -
  have h: "length (m_submitQueue (after cfgA [Call_submit (cmd 1), Call_submit (cmd 2)])) = 2
     \<and> length (m_finishQueue (after cfgA [Call_submit (cmd 1), Call_submit (cmd 2)])) = 0
     \<and> MaxNumQueuedCommandBuffers cfgA = 2
     \<and> callers (after cfgA [Call_submit (cmd 1), Call_submit (cmd 2)]) = []"
    by code_simp
  show ?thesis
    using h C8_present_never_waits
      [of "frame 1" "Some 5" "after cfgA [Call_submit (cmd 1), Call_submit (cmd 2)]" cfgA]
    by auto
qed

text \<open>
  C1, as the code has it. The submitter reads \<open>m_lastError\<close> once per entry, at line 136,
  and compares it with \<open>VK_ERROR_DEVICE_LOST\<close> alone. If it finds
  \<open>VK_ERROR_DEVICE_LOST\<close>, it makes no call for the entry and gives it the status
  \<open>VK_ERROR_DEVICE_LOST\<close>, which the next step stores in the entry's status cell if it
  has one. If it finds anything else, \<open>VK_SUCCESS\<close> or another failure, it goes on to
  line 138, stays there through the steps of the other threads, and once
  \<open>m_mutexQueue\<close> is free calls \<open>cmdList->submit\<close> or \<open>presentImage\<close> for the
  entry, whatever \<open>m_lastError\<close> has become by then. The device queue is handed
  work by no other step, and the submitter gets to line 138 in no other way.
\<close>

theorem C1_device_lost_short_circuit:
  "(submitThread q = S_Dispatch entry \<and> m_lastError q = VK_ERROR_DEVICE_LOST \<longrightarrow>
      (\<exists>q'. submitCmdLists cfg r q = Some q'
         \<and> trace q' = trace q
         \<and> submitThread q' = S_Publish entry VK_ERROR_DEVICE_LOST
         \<and> (\<forall>slot r'. e_status entry = Some slot \<longrightarrow>
               map_option (\<lambda>s. statusSlots s slot) (submitCmdLists cfg r' q')
                 = Some VK_ERROR_DEVICE_LOST)))
   \<and> (submitThread q = S_Dispatch entry \<and> m_lastError q \<noteq> VK_ERROR_DEVICE_LOST \<longrightarrow>
        submitCmdLists cfg r q = Some (q\<lparr> submitThread := S_Call entry \<rparr>))
   \<and> (submitThread q = S_Call entry \<and> step cfg a q = Some q' \<and> \<not> is_submitter_step a \<longrightarrow>
        submitThread q' = S_Call entry)
   \<and> (submitThread q = S_Call entry \<and> \<not> m_mutexQueue q \<longrightarrow>
        (\<exists>q'. submitCmdLists cfg r q = Some q'
           \<and> (\<forall>c. cmdList (e_submit entry) = Some c \<longrightarrow>
                 new_calls q q' = [CmdList_submit c (waitSync (e_submit entry))
                                     (wakeSync (e_submit entry)) (vkResult r)]
                 \<and> submitThread q' = S_Publish entry (vkResult r))
           \<and> (\<forall>p. cmdList (e_submit entry) = None \<and> presenter (e_present entry) = Some p \<longrightarrow>
                 Presenter_presentImage p (vkResult r) \<in> set (new_calls q q')
                 \<and> submitThread q' = S_Publish entry (vkResult r))))
   \<and> (step cfg a q = Some q' \<and> list_ex touches_queue (new_calls q q') \<longrightarrow>
        (\<exists>e r'. submitThread q = S_Call e \<and> a = Step_submitCmdLists r'))
   \<and> (step cfg a q = Some q' \<and> submitThread q' = S_Call entry
        \<and> submitThread q \<noteq> S_Call entry \<longrightarrow>
        submitThread q = S_Dispatch entry \<and> m_lastError q \<noteq> VK_ERROR_DEVICE_LOST
        \<and> is_submitter_step a)"
proof -
  have a: "\<exists>q'. submitCmdLists cfg r q = Some q'
         \<and> trace q' = trace q
         \<and> submitThread q' = S_Publish entry VK_ERROR_DEVICE_LOST
         \<and> (\<forall>slot r'. e_status entry = Some slot \<longrightarrow>
               map_option (\<lambda>s. statusSlots s slot) (submitCmdLists cfg r' q')
                 = Some VK_ERROR_DEVICE_LOST)"
    if "submitThread q = S_Dispatch entry" and "m_lastError q = VK_ERROR_DEVICE_LOST"
    using that by (simp add: submitCmdLists_def submit_test_def submit_publish_def)
  have b: "submitCmdLists cfg r q = Some (q\<lparr> submitThread := S_Call entry \<rparr>)"
    if "submitThread q = S_Dispatch entry" and "m_lastError q \<noteq> VK_ERROR_DEVICE_LOST"
    using that by (simp add: submitCmdLists_def submit_test_def)
  have c: "submitThread q' = S_Call entry"
    if "submitThread q = S_Call entry" and "step cfg a q = Some q'"
      and "\<not> is_submitter_step a"
    using other_step(2) [OF that(2,3)] that(1) by simp
  have d: "\<exists>q'. submitCmdLists cfg r q = Some q'
           \<and> (\<forall>c. cmdList (e_submit entry) = Some c \<longrightarrow>
                 new_calls q q' = [CmdList_submit c (waitSync (e_submit entry))
                                     (wakeSync (e_submit entry)) (vkResult r)]
                 \<and> submitThread q' = S_Publish entry (vkResult r))
           \<and> (\<forall>p. cmdList (e_submit entry) = None \<and> presenter (e_present entry) = Some p \<longrightarrow>
                 Presenter_presentImage p (vkResult r) \<in> set (new_calls q q')
                 \<and> submitThread q' = S_Publish entry (vkResult r))"
    if "submitThread q = S_Call entry" and "\<not> m_mutexQueue q"
    using that
    by (cases "cmdList (e_submit entry)"; cases "presenter (e_present entry)")
       (simp_all add: submitCmdLists_def submit_dispatch_def called_def new_calls_def)
  have e: "\<exists>e r'. submitThread q = S_Call e \<and> a = Step_submitCmdLists r'"
    if "step cfg a q = Some q'" and "list_ex touches_queue (new_calls q q')"
    using that by (rule step_touches)
  have f: "submitThread q = S_Dispatch entry \<and> m_lastError q \<noteq> VK_ERROR_DEVICE_LOST
        \<and> is_submitter_step a"
    if st: "step cfg a q = Some q'" and to: "submitThread q' = S_Call entry"
      and frm: "submitThread q \<noteq> S_Call entry"
  proof (cases "is_submitter_step a")
    case True
    then obtain r' where "a = Step_submitCmdLists r'"
      by (cases a) auto
    with st to frm show ?thesis
      by (cases "submitThread q")
         (auto simp: submitCmdLists_def submit_wait_def submit_test_def submit_dispatch_def
            submit_publish_def submit_complete_def notify_all_def called_def
            split: option.splits list.splits if_splits)
  next
    case False
    have "in_flight (submitThread q') \<noteq> None"
      using to by simp
    moreover have "in_flight (submitThread q) \<noteq> None \<Longrightarrow> submitThread q' = submitThread q"
      using other_step(2) [OF st False] .
    moreover have "in_flight (submitThread q) = None \<Longrightarrow> in_flight (submitThread q') = None"
      using st False by (rule idle_other_step)
    ultimately show ?thesis
      using to frm by auto
  qed
  from a b c d e f show ?thesis
    by blast
qed

theorem C1_device_lost_short_circuit_witness:
  "submitThread (second_at_test VK_ERROR_DEVICE_LOST) = S_Dispatch (entry0\<lparr> e_submit := cmd 2 \<rparr>)
   \<and> m_lastError (second_at_test VK_ERROR_DEVICE_LOST) = VK_ERROR_DEVICE_LOST
   \<and> (\<exists>q'. submitCmdLists cfgB (answer VK_SUCCESS) (second_at_test VK_ERROR_DEVICE_LOST) = Some q'
        \<and> trace q' = trace (second_at_test VK_ERROR_DEVICE_LOST)
        \<and> submitThread q' = S_Publish (entry0\<lparr> e_submit := cmd 2 \<rparr>) VK_ERROR_DEVICE_LOST)
   \<and> submitThread (second_at_test (VK_RESULT (- 2))) = S_Dispatch (entry0\<lparr> e_submit := cmd 2 \<rparr>)
   \<and> m_lastError (second_at_test (VK_RESULT (- 2))) = VK_RESULT (- 2)
   \<and> submitCmdLists cfgB (answer VK_SUCCESS) (second_at_test (VK_RESULT (- 2)))
      = Some ((second_at_test (VK_RESULT (- 2)))
          \<lparr> submitThread := S_Call (entry0\<lparr> e_submit := cmd 2 \<rparr>) \<rparr>)
   \<and> submitThread second_past_test = S_Call (entry0\<lparr> e_submit := cmd 2 \<rparr>)
   \<and> \<not> m_mutexQueue second_past_test
   \<and> m_lastError second_past_test = VK_ERROR_DEVICE_LOST
   \<and> (\<exists>q'. submitCmdLists cfgB (answer VK_SUCCESS) second_past_test = Some q'
        \<and> new_calls second_past_test q' = [CmdList_submit 2 0 0 VK_SUCCESS]
        \<and> submitThread q' = S_Publish (entry0\<lparr> e_submit := cmd 2 \<rparr>) VK_SUCCESS)
   \<and> \<not> is_submitter_step (Step_finishCmdLists (answer VK_SUCCESS))
   \<and> (\<exists>q'. step cfgB (Step_finishCmdLists (answer VK_SUCCESS)) second_past_test = Some q'
        \<and> submitThread q' = S_Call (entry0\<lparr> e_submit := cmd 2 \<rparr>))"
proof -
  let ?e = "entry0\<lparr> e_submit := cmd 2 \<rparr>"
  have l1: "submitThread (second_at_test VK_ERROR_DEVICE_LOST) = S_Dispatch ?e"
    by code_simp
  have l2: "m_lastError (second_at_test VK_ERROR_DEVICE_LOST) = VK_ERROR_DEVICE_LOST"
    by code_simp
  have m1: "submitThread (second_at_test (VK_RESULT (- 2))) = S_Dispatch ?e"
    by code_simp
  have m2: "m_lastError (second_at_test (VK_RESULT (- 2))) = VK_RESULT (- 2)"
    by code_simp
  have m3: "m_lastError (second_at_test (VK_RESULT (- 2))) \<noteq> VK_ERROR_DEVICE_LOST"
    unfolding m2 by simp
  have r1: "submitThread second_past_test = S_Call ?e"
    by code_simp
  have r2: "\<not> m_mutexQueue second_past_test"
    by code_simp
  have r3: "m_lastError second_past_test = VK_ERROR_DEVICE_LOST"
    by code_simp
  have "runs cfgB ((Call_submit (cmd 1) # Call_submit (cmd 2) # late_loss)
          @ [Step_finishCmdLists (answer VK_SUCCESS)])"
    by code_simp
  then have f1: "step cfgB (Step_finishCmdLists (answer VK_SUCCESS)) second_past_test
      = Some (after cfgB ((Call_submit (cmd 1) # Call_submit (cmd 2) # late_loss)
          @ [Step_finishCmdLists (answer VK_SUCCESS)]))"
    unfolding second_past_test_def by (rule after_step)
  have f2: "\<not> is_submitter_step (Step_finishCmdLists (answer VK_SUCCESS))"
    by simp
  have c: "cmdList (e_submit ?e) = Some 2" "waitSync (e_submit ?e) = 0"
    "wakeSync (e_submit ?e) = 0" "vkResult (answer VK_SUCCESS) = VK_SUCCESS"
    by (simp_all add: cmd_def answer_def)
  note L = C1_device_lost_short_circuit
      [of "second_at_test VK_ERROR_DEVICE_LOST" ?e cfgB "answer VK_SUCCESS"]
  note M = C1_device_lost_short_circuit
      [of "second_at_test (VK_RESULT (- 2))" ?e cfgB "answer VK_SUCCESS"]
  note R = C1_device_lost_short_circuit
      [of second_past_test ?e cfgB "answer VK_SUCCESS"
        "Step_finishCmdLists (answer VK_SUCCESS)"
        "after cfgB ((Call_submit (cmd 1) # Call_submit (cmd 2) # late_loss)
          @ [Step_finishCmdLists (answer VK_SUCCESS)])"]
  from L [THEN conjunct1, THEN mp, OF conjI [OF l1 l2]]
  have A: "\<exists>q'. submitCmdLists cfgB (answer VK_SUCCESS) (second_at_test VK_ERROR_DEVICE_LOST)
          = Some q'
        \<and> trace q' = trace (second_at_test VK_ERROR_DEVICE_LOST)
        \<and> submitThread q' = S_Publish ?e VK_ERROR_DEVICE_LOST"
    by blast
  from M [THEN conjunct2, THEN conjunct1, THEN mp, OF conjI [OF m1 m3]]
  have B: "submitCmdLists cfgB (answer VK_SUCCESS) (second_at_test (VK_RESULT (- 2)))
      = Some ((second_at_test (VK_RESULT (- 2)))\<lparr> submitThread := S_Call ?e \<rparr>)" .
  from R [THEN conjunct2, THEN conjunct2, THEN conjunct1, THEN mp,
      OF conjI [OF r1 conjI [OF f1 f2]]]
  have C: "submitThread (after cfgB ((Call_submit (cmd 1) # Call_submit (cmd 2) # late_loss)
          @ [Step_finishCmdLists (answer VK_SUCCESS)])) = S_Call ?e" .
  from R [THEN conjunct2, THEN conjunct2, THEN conjunct2, THEN conjunct1, THEN mp,
      OF conjI [OF r1 r2]]
  obtain q' where d: "submitCmdLists cfgB (answer VK_SUCCESS) second_past_test = Some q'"
    and "\<forall>c. cmdList (e_submit ?e) = Some c \<longrightarrow>
           new_calls second_past_test q'
             = [CmdList_submit c (waitSync (e_submit ?e)) (wakeSync (e_submit ?e))
                  (vkResult (answer VK_SUCCESS))]
           \<and> submitThread q' = S_Publish ?e (vkResult (answer VK_SUCCESS))"
    by blast
  then have "new_calls second_past_test q' = [CmdList_submit 2 0 0 VK_SUCCESS]
      \<and> submitThread q' = S_Publish ?e VK_SUCCESS"
    using c by metis
  with d have D: "\<exists>q'. submitCmdLists cfgB (answer VK_SUCCESS) second_past_test = Some q'
        \<and> new_calls second_past_test q' = [CmdList_submit 2 0 0 VK_SUCCESS]
        \<and> submitThread q' = S_Publish ?e VK_SUCCESS"
    by blast
  from f1 C have F: "\<exists>q'. step cfgB (Step_finishCmdLists (answer VK_SUCCESS)) second_past_test
          = Some q' \<and> submitThread q' = S_Call ?e"
    by blast
  show ?thesis
    by (intro conjI) (fact l1 l2 A m1 m2 B r1 r2 r3 D f2 F)+
qed

text \<open>
  C1 as stated fails, twice. The submit of command list 1 fails with result \<open>- 2\<close>
  (\<open>VK_ERROR_OUT_OF_DEVICE_MEMORY\<close>), \<open>m_lastError\<close> becomes that result, which is not
  \<open>VK_SUCCESS\<close>, and the submitter then calls \<open>cmdList->submit\<close> for command list 2.
  And when the fence sync of command list 1 fails with \<open>VK_ERROR_DEVICE_LOST\<close> after the
  submitter has passed line 136 for command list 2, \<open>m_lastError\<close> is
  \<open>VK_ERROR_DEVICE_LOST\<close> and the submitter's next step calls \<open>cmdList->submit\<close>
  for command list 2.
\<close>

theorem C1_counterexample:
  "runs cfgB (Call_submit (cmd 1) # Call_submit (cmd 2)
      # submitter 5 (VK_RESULT (- 2)) @ submitter 3 VK_SUCCESS)
   \<and> m_lastError (after cfgB (Call_submit (cmd 1) # Call_submit (cmd 2)
        # submitter 5 (VK_RESULT (- 2)))) = VK_RESULT (- 2)
   \<and> trace (after cfgB (Call_submit (cmd 1) # Call_submit (cmd 2)
        # submitter 5 (VK_RESULT (- 2))))
      = [CmdList_submit 1 0 0 (VK_RESULT (- 2)),
         Logger_err ''DxvkSubmissionQueue: Command submission failed: '' (VK_RESULT (- 2)),
         Device_waitForIdle]
   \<and> trace (after cfgB (Call_submit (cmd 1) # Call_submit (cmd 2)
        # submitter 5 (VK_RESULT (- 2)) @ submitter 3 VK_SUCCESS))
      = [CmdList_submit 1 0 0 (VK_RESULT (- 2)),
         Logger_err ''DxvkSubmissionQueue: Command submission failed: '' (VK_RESULT (- 2)),
         Device_waitForIdle,
         CmdList_submit 2 0 0 VK_SUCCESS]
   \<and> runs cfgB (Call_submit (cmd 1) # Call_submit (cmd 2)
        # late_loss @ submitter 1 VK_SUCCESS)
   \<and> m_lastError second_past_test = VK_ERROR_DEVICE_LOST
   \<and> submitThread second_past_test = S_Call (entry0\<lparr> e_submit := cmd 2 \<rparr>)
   \<and> new_calls second_past_test
        (after cfgB (Call_submit (cmd 1) # Call_submit (cmd 2)
           # late_loss @ submitter 1 VK_SUCCESS))
      = [CmdList_submit 2 0 0 VK_SUCCESS]"
  by code_simp

text \<open>
  C4, as the code has it. The submitter reads \<open>m_lastError\<close> once per entry, at line 136.
  An entry for which it finds \<open>VK_ERROR_DEVICE_LOST\<close> there gets the status
  \<open>VK_ERROR_DEVICE_LOST\<close> (stored in its status cell if it has one), and from the test to
  the pop nothing is handed to the device queue, whatever the producers and the finisher
  do in between. The status then takes the failure branch of line 173: for every such entry
  the error is logged, \<open>m_lastError\<close> is set again, the crash reporter is polled if it is
  enabled, and \<open>m_device->waitForIdle()\<close> is called; the entry does not enter
  \<open>m_finishQueue\<close>.
\<close>

theorem C4_drain_after_device_lost:
  assumes "submitThread q = S_Dispatch entry"
    and "m_lastError q = VK_ERROR_DEVICE_LOST"
    and "\<not> list_ex is_submitter_step ys"
    and "\<not> list_ex is_submitter_step zs"
    and "run cfg (Step_submitCmdLists r1 # ys @ Step_submitCmdLists r2 # zs) q = Some q2"
  shows "submitThread q2 = S_Complete entry VK_ERROR_DEVICE_LOST
    \<and> (\<forall>slot. e_status entry = Some slot \<longrightarrow> statusSlots q2 slot = VK_ERROR_DEVICE_LOST)
    \<and> trace q2 = trace q @ new_calls q q2
    \<and> \<not> list_ex touches_queue (new_calls q q2)
    \<and> (\<exists>q3. submitCmdLists cfg r3 q2 = Some q3
          \<and> new_calls q2 q3
             = [Logger_err ''DxvkSubmissionQueue: Command submission failed: ''
                  VK_ERROR_DEVICE_LOST]
               @ (if enableAftermath cfg then aftermathPoll (crashDumpStatus r3) 0 else [])
               @ [Device_waitForIdle]
          \<and> m_lastError q3 = VK_ERROR_DEVICE_LOST
          \<and> m_submitQueue q3 = tl (m_submitQueue q2)
          \<and> m_finishQueue q3 = m_finishQueue q2
          \<and> m_pending q3 = m_pending q2)"
proof -
  define qa where "qa = submit_test entry q"
  have qa: "submitThread qa = S_Publish entry VK_ERROR_DEVICE_LOST"
    "statusSlots qa = statusSlots q" "trace qa = trace q"
    using assms(2) by (simp_all add: qa_def submit_test_def)
  have s1: "step cfg (Step_submitCmdLists r1) q = Some qa"
    using assms(1) by (simp add: qa_def submitCmdLists_def)
  with assms(5) have "run cfg (ys @ Step_submitCmdLists r2 # zs) qa = Some q2"
    by simp
  then obtain qb where rb: "run cfg ys qa = Some qb"
    and rest: "run cfg (Step_submitCmdLists r2 # zs) qb = Some q2"
    by (auto simp: run_append split: option.splits)
  from quiet_run [OF rb assms(3)] qa obtain cs1 where qb:
    "submitThread qb = S_Publish entry VK_ERROR_DEVICE_LOST"
    "trace qb = trace q @ cs1" "\<not> list_ex touches_queue cs1"
    by auto
  define qc where "qc = submit_publish entry VK_ERROR_DEVICE_LOST qb"
  have qc: "submitThread qc = S_Complete entry VK_ERROR_DEVICE_LOST"
    "\<forall>slot. e_status entry = Some slot \<longrightarrow> statusSlots qc slot = VK_ERROR_DEVICE_LOST"
    "trace qc = trace qb"
    by (cases "e_status entry"; simp add: qc_def submit_publish_def)+
  have "step cfg (Step_submitCmdLists r2) qb = Some qc"
    using qb(1) by (simp add: qc_def submitCmdLists_def)
  with rest have rz: "run cfg zs qc = Some q2"
    by simp
  from quiet_run [OF rz assms(4)] qc obtain cs2 where q2:
    "submitThread q2 = S_Complete entry VK_ERROR_DEVICE_LOST"
    "statusSlots q2 = statusSlots qc"
    "trace q2 = trace qc @ cs2" "\<not> list_ex touches_queue cs2"
    by auto
  have tr: "trace q2 = trace q @ (cs1 @ cs2)"
    using q2(3) qc(3) qb(2) by simp
  then have nc: "new_calls q q2 = cs1 @ cs2"
    by (simp add: new_calls_def)
  have last: "\<exists>q3. submitCmdLists cfg r3 q2 = Some q3
          \<and> new_calls q2 q3
             = [Logger_err ''DxvkSubmissionQueue: Command submission failed: ''
                  VK_ERROR_DEVICE_LOST]
               @ (if enableAftermath cfg then aftermathPoll (crashDumpStatus r3) 0 else [])
               @ [Device_waitForIdle]
          \<and> m_lastError q3 = VK_ERROR_DEVICE_LOST
          \<and> m_submitQueue q3 = tl (m_submitQueue q2)
          \<and> m_finishQueue q3 = m_finishQueue q2
          \<and> m_pending q3 = m_pending q2"
    using q2(1)
    by (cases "m_submitQueue q2")
       (simp_all add: submitCmdLists_def submit_complete_def submit_result_def called_def
          new_calls_def)
  show ?thesis
    using q2(1,2) qc(2) tr nc qb(3) q2(4) last by simp
qed

theorem C4_drain_after_device_lost_witness:
  "submitThread (after cfgB (Call_submit (cmd 1) # Call_present (frame 1) (Some 7)
        # submitter 6 VK_ERROR_DEVICE_LOST))
      = S_Dispatch (entry0\<lparr> e_status := Some 7, e_present := frame 1 \<rparr>)
   \<and> m_lastError (after cfgB (Call_submit (cmd 1) # Call_present (frame 1) (Some 7)
        # submitter 6 VK_ERROR_DEVICE_LOST)) = VK_ERROR_DEVICE_LOST
   \<and> \<not> list_ex is_submitter_step (finisher 1 VK_SUCCESS)
   \<and> \<not> list_ex is_submitter_step [Call_present (frame 2) None]
   \<and> run cfgB (Step_submitCmdLists (answer VK_SUCCESS) # finisher 1 VK_SUCCESS
          @ Step_submitCmdLists (answer VK_SUCCESS) # [Call_present (frame 2) None])
        (after cfgB (Call_submit (cmd 1) # Call_present (frame 1) (Some 7)
           # submitter 6 VK_ERROR_DEVICE_LOST))
      = Some (after cfgB ((Call_submit (cmd 1) # Call_present (frame 1) (Some 7)
           # submitter 6 VK_ERROR_DEVICE_LOST)
           @ (Step_submitCmdLists (answer VK_SUCCESS) # finisher 1 VK_SUCCESS
              @ Step_submitCmdLists (answer VK_SUCCESS) # [Call_present (frame 2) None])))
   \<and> submitThread (after cfgB ((Call_submit (cmd 1) # Call_present (frame 1) (Some 7)
           # submitter 6 VK_ERROR_DEVICE_LOST)
           @ (Step_submitCmdLists (answer VK_SUCCESS) # finisher 1 VK_SUCCESS
              @ Step_submitCmdLists (answer VK_SUCCESS) # [Call_present (frame 2) None])))
      = S_Complete (entry0\<lparr> e_status := Some 7, e_present := frame 1 \<rparr>) VK_ERROR_DEVICE_LOST
   \<and> statusSlots (after cfgB ((Call_submit (cmd 1) # Call_present (frame 1) (Some 7)
           # submitter 6 VK_ERROR_DEVICE_LOST)
           @ (Step_submitCmdLists (answer VK_SUCCESS) # finisher 1 VK_SUCCESS
              @ Step_submitCmdLists (answer VK_SUCCESS) # [Call_present (frame 2) None]))) 7
      = VK_ERROR_DEVICE_LOST"
proof -
  have h1: "submitThread (after cfgB (Call_submit (cmd 1) # Call_present (frame 1) (Some 7)
        # submitter 6 VK_ERROR_DEVICE_LOST))
      = S_Dispatch (entry0\<lparr> e_status := Some 7, e_present := frame 1 \<rparr>)"
    by code_simp
  have h2: "m_lastError (after cfgB (Call_submit (cmd 1) # Call_present (frame 1) (Some 7)
        # submitter 6 VK_ERROR_DEVICE_LOST)) = VK_ERROR_DEVICE_LOST"
    by code_simp
  have h3: "\<not> list_ex is_submitter_step (finisher 1 VK_SUCCESS)"
    by code_simp
  have h4: "\<not> list_ex is_submitter_step [Call_present (frame 2) None]"
    by simp
  have r1: "runs cfgB (Call_submit (cmd 1) # Call_present (frame 1) (Some 7)
        # submitter 6 VK_ERROR_DEVICE_LOST)"
    by code_simp
  have r2: "runs cfgB ((Call_submit (cmd 1) # Call_present (frame 1) (Some 7)
           # submitter 6 VK_ERROR_DEVICE_LOST)
           @ (Step_submitCmdLists (answer VK_SUCCESS) # finisher 1 VK_SUCCESS
              @ Step_submitCmdLists (answer VK_SUCCESS) # [Call_present (frame 2) None]))"
    by code_simp
  have h5: "run cfgB (Step_submitCmdLists (answer VK_SUCCESS) # finisher 1 VK_SUCCESS
          @ Step_submitCmdLists (answer VK_SUCCESS) # [Call_present (frame 2) None])
        (after cfgB (Call_submit (cmd 1) # Call_present (frame 1) (Some 7)
           # submitter 6 VK_ERROR_DEVICE_LOST))
      = Some (after cfgB ((Call_submit (cmd 1) # Call_present (frame 1) (Some 7)
           # submitter 6 VK_ERROR_DEVICE_LOST)
           @ (Step_submitCmdLists (answer VK_SUCCESS) # finisher 1 VK_SUCCESS
              @ Step_submitCmdLists (answer VK_SUCCESS) # [Call_present (frame 2) None])))"
    using r1 r2 by (rule after_run)
  have h6: "e_status (entry0\<lparr> e_status := Some 7, e_present := frame 1 \<rparr>) = Some 7"
    by simp
  show ?thesis
    using h1 h2 h3 h4 h5 h6 C4_drain_after_device_lost [OF h1 h2 h3 h4 h5]
    by blast
qed

text \<open>
  C4 as stated fails, twice. Command list 1 fails with \<open>VK_ERROR_DEVICE_LOST\<close>; draining
  the entry of command list 2, queued before, calls \<open>m_device->waitForIdle()\<close> again.
  And an entry that has passed the test of line 136 before the finisher stores
  \<open>VK_ERROR_DEVICE_LOST\<close> is still presented after that store, and its status cell
  receives the presenter's \<open>VK_SUCCESS\<close>.
\<close>

theorem C4_counterexample:
  "runs cfgB (Call_submit (cmd 1) # Call_submit (cmd 2) # submitter 9 VK_ERROR_DEVICE_LOST)
   \<and> m_lastError (after cfgB (Call_submit (cmd 1) # Call_submit (cmd 2)
        # submitter 6 VK_ERROR_DEVICE_LOST)) = VK_ERROR_DEVICE_LOST
   \<and> submitThread (after cfgB (Call_submit (cmd 1) # Call_submit (cmd 2)
        # submitter 6 VK_ERROR_DEVICE_LOST)) = S_Dispatch (entry0\<lparr> e_submit := cmd 2 \<rparr>)
   \<and> new_calls
        (after cfgB (Call_submit (cmd 1) # Call_submit (cmd 2) # submitter 6 VK_ERROR_DEVICE_LOST))
        (after cfgB (Call_submit (cmd 1) # Call_submit (cmd 2) # submitter 9 VK_ERROR_DEVICE_LOST))
      = [Logger_err ''DxvkSubmissionQueue: Command submission failed: '' VK_ERROR_DEVICE_LOST,
         Device_waitForIdle]
   \<and> m_submitQueue (after cfgB (Call_submit (cmd 1) # Call_submit (cmd 2)
        # submitter 9 VK_ERROR_DEVICE_LOST)) = []
   \<and> runs cfgB (Call_submit (cmd 1) # Call_present (frame 1) (Some 7)
        # late_loss @ submitter 3 VK_SUCCESS)
   \<and> m_lastError (after cfgB (Call_submit (cmd 1) # Call_present (frame 1) (Some 7)
        # late_loss)) = VK_ERROR_DEVICE_LOST
   \<and> map (presenter \<circ> e_present) (m_submitQueue (after cfgB (Call_submit (cmd 1)
        # Call_present (frame 1) (Some 7) # late_loss))) = [Some 9]
   \<and> new_calls
        (after cfgB (Call_submit (cmd 1) # Call_present (frame 1) (Some 7) # late_loss))
        (after cfgB (Call_submit (cmd 1) # Call_present (frame 1) (Some 7)
           # late_loss @ submitter 3 VK_SUCCESS))
      = [Reflex_setMarker 1 VK_PRESENT_START, Presenter_presentImage 9 VK_SUCCESS,
         Reflex_setMarker 1 VK_PRESENT_END]
   \<and> statusSlots (after cfgB (Call_submit (cmd 1) # Call_present (frame 1) (Some 7)
        # late_loss @ submitter 3 VK_SUCCESS)) 7 = VK_SUCCESS
   \<and> m_submitQueue (after cfgB (Call_submit (cmd 1) # Call_present (frame 1) (Some 7)
        # late_loss @ submitter 3 VK_SUCCESS)) = []
   \<and> m_lastError (after cfgB (Call_submit (cmd 1) # Call_present (frame 1) (Some 7)
        # late_loss @ submitter 3 VK_SUCCESS)) = VK_ERROR_DEVICE_LOST"
  by code_simp

text \<open>
  C6, as the code has it. The poll of the crash reporter does not depend on the failing
  result: whenever the submitter takes the failure branch of line 173 (a status other than
  \<open>VK_SUCCESS\<close> that is \<open>VK_ERROR_DEVICE_LOST\<close> or belongs to an entry with a
  command list), it sets \<open>m_lastError\<close>, logs, polls the crash reporter if and only if
  \<open>enableAftermath\<close> is set, and calls \<open>waitForIdle\<close>. The finisher's handling of a
  failed fence sync sets \<open>m_lastError\<close>, logs and calls \<open>waitForIdle\<close>, and no step
  of the finisher polls the crash reporter, whatever the result.
\<close>

theorem C6_crash_poll:
  "(submitThread q = S_Complete entry status \<and> status \<noteq> VK_SUCCESS
      \<and> (status = VK_ERROR_DEVICE_LOST \<or> cmdList (e_submit entry) \<noteq> None) \<longrightarrow>
      (\<exists>q'. submitCmdLists cfg r q = Some q'
         \<and> m_lastError q' = status
         \<and> new_calls q q'
             = [Logger_err ''DxvkSubmissionQueue: Command submission failed: '' status]
               @ (if enableAftermath cfg then aftermathPoll (crashDumpStatus r) 0 else [])
               @ [Device_waitForIdle]
         \<and> list_ex is_poll (new_calls q q') = enableAftermath cfg))
   \<and> (finishCmdLists r2 q2 = Some q2' \<longrightarrow> \<not> list_ex is_poll (new_calls q2 q2'))
   \<and> (finishThread q2 = F_Handle entry2 status2 \<and> status2 \<noteq> VK_SUCCESS
        \<and> cmdList (e_submit entry2) = Some c \<longrightarrow>
      (\<exists>q2'. finishCmdLists r2 q2 = Some q2'
         \<and> m_lastError q2' = status2
         \<and> new_calls q2 q2'
             = [Logger_err ''DxvkSubmissionQueue: Failed to sync fence: '' status2,
                Device_waitForIdle,
                CmdList_notifySignals c, CmdList_reset c, Device_recycleCommandList c]))"
proof -
  have "\<exists>q'. submitCmdLists cfg r q = Some q'
         \<and> m_lastError q' = status
         \<and> new_calls q q'
             = [Logger_err ''DxvkSubmissionQueue: Command submission failed: '' status]
               @ (if enableAftermath cfg then aftermathPoll (crashDumpStatus r) 0 else [])
               @ [Device_waitForIdle]
         \<and> list_ex is_poll (new_calls q q') = enableAftermath cfg"
    if "submitThread q = S_Complete entry status" and "status \<noteq> VK_SUCCESS"
      and "status = VK_ERROR_DEVICE_LOST \<or> cmdList (e_submit entry) \<noteq> None"
    using that
    by (cases "m_submitQueue q")
       (auto simp: submitCmdLists_def submit_complete_def submit_result_def called_def
          new_calls_def poll_first)
  moreover have "\<not> list_ex is_poll (new_calls q2 q2')" if "finishCmdLists r2 q2 = Some q2'"
    using that by (rule finishCmdLists_polls)
  moreover have "\<exists>q2'. finishCmdLists r2 q2 = Some q2'
         \<and> m_lastError q2' = status2
         \<and> new_calls q2 q2'
             = [Logger_err ''DxvkSubmissionQueue: Failed to sync fence: '' status2,
                Device_waitForIdle,
                CmdList_notifySignals c, CmdList_reset c, Device_recycleCommandList c]"
    if "finishThread q2 = F_Handle entry2 status2" and "status2 \<noteq> VK_SUCCESS"
      and "cmdList (e_submit entry2) = Some c"
    using that
    by (simp add: finishCmdLists_def finish_handle_def finish_error_def called_def new_calls_def)
  ultimately show ?thesis
    by blast
qed

theorem C6_crash_poll_witness:
  "submitThread (after cfgA (Call_submit (cmd 1) # submitter 4 (VK_RESULT (- 2))))
     = S_Complete (entry0\<lparr> e_submit := cmd 1 \<rparr>) (VK_RESULT (- 2))
   \<and> VK_RESULT (- 2) \<noteq> VK_SUCCESS
   \<and> cmdList (e_submit (entry0\<lparr> e_submit := cmd 1 \<rparr>)) \<noteq> None
   \<and> enableAftermath cfgA
   \<and> (\<exists>q'. submitCmdLists cfgA (answer VK_SUCCESS)
          (after cfgA (Call_submit (cmd 1) # submitter 4 (VK_RESULT (- 2)))) = Some q'
        \<and> m_lastError q' = VK_RESULT (- 2)
        \<and> list_ex is_poll (new_calls
             (after cfgA (Call_submit (cmd 1) # submitter 4 (VK_RESULT (- 2)))) q'))
   \<and> finishThread (after cfgA (Call_submit (cmd 1) # submitter 5 VK_SUCCESS
        @ finisher 2 VK_ERROR_DEVICE_LOST))
     = F_Handle (entry0\<lparr> e_submit := cmd 1 \<rparr>) VK_ERROR_DEVICE_LOST
   \<and> (\<exists>q2'. finishCmdLists (answer VK_SUCCESS)
          (after cfgA (Call_submit (cmd 1) # submitter 5 VK_SUCCESS
             @ finisher 2 VK_ERROR_DEVICE_LOST)) = Some q2'
        \<and> m_lastError q2' = VK_ERROR_DEVICE_LOST
        \<and> \<not> list_ex is_poll (new_calls
             (after cfgA (Call_submit (cmd 1) # submitter 5 VK_SUCCESS
                @ finisher 2 VK_ERROR_DEVICE_LOST)) q2'))"
proof -
  have h1: "submitThread (after cfgA (Call_submit (cmd 1) # submitter 4 (VK_RESULT (- 2))))
     = S_Complete (entry0\<lparr> e_submit := cmd 1 \<rparr>) (VK_RESULT (- 2))"
    by code_simp
  have h2: "VK_RESULT (- 2) \<noteq> VK_SUCCESS
      \<and> cmdList (e_submit (entry0\<lparr> e_submit := cmd 1 \<rparr>)) = Some 1
      \<and> enableAftermath cfgA \<and> VK_ERROR_DEVICE_LOST \<noteq> VK_SUCCESS"
    by (simp add: cmd_def cfgA_def)
  have h3: "finishThread (after cfgA (Call_submit (cmd 1) # submitter 5 VK_SUCCESS
        @ finisher 2 VK_ERROR_DEVICE_LOST))
     = F_Handle (entry0\<lparr> e_submit := cmd 1 \<rparr>) VK_ERROR_DEVICE_LOST"
    by code_simp
  show ?thesis
    using h1 h2 h3
      C6_crash_poll [of "after cfgA (Call_submit (cmd 1) # submitter 4 (VK_RESULT (- 2)))"
        "entry0\<lparr> e_submit := cmd 1 \<rparr>" "VK_RESULT (- 2)" cfgA "answer VK_SUCCESS"
        "answer VK_SUCCESS"
        "after cfgA (Call_submit (cmd 1) # submitter 5 VK_SUCCESS @ finisher 2 VK_ERROR_DEVICE_LOST)"
        _ "entry0\<lparr> e_submit := cmd 1 \<rparr>" VK_ERROR_DEVICE_LOST 1]
    by (metis option.distinct(1))
qed

text \<open>
  C6 as stated fails: with the crash reporter enabled, a submit that fails with result
  \<open>- 2\<close> (\<open>VK_ERROR_OUT_OF_DEVICE_MEMORY\<close>, not device-lost) is followed by the poll.
\<close>

theorem C6_counterexample:
  "runs cfgA (Call_submit (cmd 1) # submitter 5 (VK_RESULT (- 2)))
   \<and> enableAftermath cfgA
   \<and> VK_RESULT (- 2) \<noteq> VK_ERROR_DEVICE_LOST
   \<and> trace (after cfgA (Call_submit (cmd 1) # submitter 5 (VK_RESULT (- 2))))
      = [CmdList_submit 1 0 0 (VK_RESULT (- 2)),
         Logger_err ''DxvkSubmissionQueue: Command submission failed: '' (VK_RESULT (- 2)),
         GFSDK_Aftermath_GetCrashDumpStatus GFSDK_Aftermath_CrashDump_Status_Finished,
         Device_waitForIdle]"
  by code_simp

text \<open>
  C7. A call of \<open>synchronize\<close> returns, at once or after a wake-up, only in a state whose
  \<open>m_submitQueue\<close> is empty. In every reachable state in which the submitter has moved
  an entry out of the head and has not yet popped it (during the device call, the store of
  the status and up to line 198), that entry is still the head of \<open>m_submitQueue\<close>:
  a call of \<open>synchronize\<close> made then waits, and a waiting one that is woken sleeps again.
  Every step of any thread other than the submitter's last one for the entry (lines 168
  to 199, which end with the pop) leads to a state in which the submitter is still working
  on that entry and the entry is still the head.
\<close>

theorem C7_synchronize_sees_in_flight:
  assumes "reachable cfg q"
  shows "(\<forall>q'. synchronize q = Returns q' \<longrightarrow> m_submitQueue q = [])
    \<and> (\<forall>i q'. wake cfg i q = Some (Returns q') \<and> fst (callers q ! i) = In_synchronize
          \<longrightarrow> m_submitQueue q = [])
    \<and> (\<forall>entry. in_flight (submitThread q) = Some entry \<longrightarrow>
          (\<exists>rest. m_submitQueue q = entry # rest)
          \<and> synchronize q = Waits (wait_on In_synchronize q)
          \<and> (\<forall>i. i < length (callers q) \<and> callers q ! i = (In_synchronize, True)
                \<longrightarrow> wake cfg i q = Some (Waits (sleep_again i q)))
          \<and> (\<forall>a q'. step cfg a q = Some q'
                \<and> \<not> (\<exists>status r. submitThread q = S_Complete entry status
                         \<and> a = Step_submitCmdLists r)
                \<longrightarrow> in_flight (submitThread q') = Some entry
                    \<and> (\<exists>rest'. m_submitQueue q' = entry # rest')))"
proof -
  have kept: "head_kept q"
    using assms by (rule reachable_head_kept)
  have a: "m_submitQueue q = []" if "synchronize q = Returns q'" for q'
    using that by (auto simp: synchronize_def split: if_splits)
  have b: "m_submitQueue q = []"
    if "wake cfg i q = Some (Returns q')" and "fst (callers q ! i) = In_synchronize" for i q'
    using that by (auto simp: wake_def split: if_splits)
  have c: "(\<exists>rest. m_submitQueue q = entry # rest)
          \<and> synchronize q = Waits (wait_on In_synchronize q)
          \<and> (\<forall>i. i < length (callers q) \<and> callers q ! i = (In_synchronize, True)
                \<longrightarrow> wake cfg i q = Some (Waits (sleep_again i q)))
          \<and> (\<forall>a q'. step cfg a q = Some q'
                \<and> \<not> (\<exists>status r. submitThread q = S_Complete entry status
                         \<and> a = Step_submitCmdLists r)
                \<longrightarrow> in_flight (submitThread q') = Some entry
                    \<and> (\<exists>rest'. m_submitQueue q' = entry # rest'))"
    if fl: "in_flight (submitThread q) = Some entry" for entry
  proof -
    obtain rest where hd: "m_submitQueue q = entry # rest"
      using head_keptD [OF kept fl] by blast
    have "synchronize q = Waits (wait_on In_synchronize q)"
      using hd by (simp add: synchronize_def)
    moreover have "wake cfg i q = Some (Waits (sleep_again i q))"
      if "i < length (callers q)" and "callers q ! i = (In_synchronize, True)" for i
      using that hd by (simp add: wake_def)
    moreover have "in_flight (submitThread q') = Some entry
        \<and> (\<exists>rest'. m_submitQueue q' = entry # rest')"
      if st: "step cfg a q = Some q'"
        and no: "\<not> (\<exists>status r. submitThread q = S_Complete entry status
                         \<and> a = Step_submitCmdLists r)" for a q'
    proof -
      have fl': "in_flight (submitThread q') = Some entry"
        using in_flight_step [OF st fl no] .
      have "head_kept q'"
        using kept st by (rule head_kept_step)
      from head_keptD [OF this fl'] fl' show ?thesis
        by blast
    qed
    ultimately show ?thesis
      using hd by blast
  qed
  from a b c show ?thesis
    by blast
qed

theorem C7_synchronize_sees_in_flight_witness:
  "reachable cfgB (after cfgB (Call_submit (cmd 1) # Call_synchronize # submitter 2 VK_SUCCESS))
   \<and> in_flight (submitThread
        (after cfgB (Call_submit (cmd 1) # Call_synchronize # submitter 2 VK_SUCCESS)))
      = Some (entry0\<lparr> e_submit := cmd 1 \<rparr>)
   \<and> callers (after cfgB (Call_submit (cmd 1) # Call_synchronize # submitter 2 VK_SUCCESS))
      = [(In_synchronize, False)]
   \<and> m_submitQueue (after cfgB (Call_submit (cmd 1) # Call_synchronize # submitter 2 VK_SUCCESS))
      = [entry0\<lparr> e_submit := cmd 1 \<rparr>]
   \<and> synchronize (after cfgB (Call_submit (cmd 1) # Call_synchronize # submitter 2 VK_SUCCESS))
      = Waits (wait_on In_synchronize
          (after cfgB (Call_submit (cmd 1) # Call_synchronize # submitter 2 VK_SUCCESS)))"
proof -
  have "runs cfgB (Call_submit (cmd 1) # Call_synchronize # submitter 2 VK_SUCCESS)"
    by code_simp
  then have h1: "reachable cfgB
      (after cfgB (Call_submit (cmd 1) # Call_synchronize # submitter 2 VK_SUCCESS))"
    by (rule reachable_after)
  have h2: "in_flight (submitThread
        (after cfgB (Call_submit (cmd 1) # Call_synchronize # submitter 2 VK_SUCCESS)))
      = Some (entry0\<lparr> e_submit := cmd 1 \<rparr>)"
    by code_simp
  have h3: "callers (after cfgB (Call_submit (cmd 1) # Call_synchronize # submitter 2 VK_SUCCESS))
      = [(In_synchronize, False)]"
    by code_simp
  have h4: "m_submitQueue (after cfgB (Call_submit (cmd 1) # Call_synchronize # submitter 2 VK_SUCCESS))
      = [entry0\<lparr> e_submit := cmd 1 \<rparr>]"
    by code_simp
  show ?thesis
    using h1 h2 h3 h4 C7_synchronize_sees_in_flight [OF h1] by blast
qed

text \<open>
  C9. In every reachable state, every entry of \<open>m_finishQueue\<close> is an entry made by
  \<open>submit\<close> (no status cell, no presenter) with a non-null command list, and the trace
  holds a call of that command list's \<open>submit\<close> that returned \<open>VK_SUCCESS\<close>; the
  entry the finisher has moved out of the head is one of them. So the finisher never goes
  through a null \<open>cmdList\<close>: it is never in the undefined state, and no step takes it there.
\<close>

theorem C9_completion_entries:
  assumes "reachable cfg q"
  shows "(\<forall>e \<in> set (m_finishQueue q). \<exists>c. cmdList (e_submit e) = Some c
            \<and> e = entry0\<lparr> e_submit := e_submit e \<rparr>
            \<and> CmdList_submit c (waitSync (e_submit e)) (wakeSync (e_submit e)) VK_SUCCESS
                 \<in> set (trace q))
    \<and> (\<forall>e status. finishThread q = F_Sync e \<or> finishThread q = F_Handle e status
          \<longrightarrow> e \<in> set (m_finishQueue q) \<and> cmdList (e_submit e) \<noteq> None)
    \<and> finishThread q \<noteq> F_Undefined
    \<and> (\<forall>r q'. finishCmdLists r q = Some q' \<longrightarrow> finishThread q' \<noteq> F_Undefined)"
proof -
  have ok: "finish_ok q"
    using assms by (rule reachable_finish_ok)
  then have all: "list_all (submitted (trace q)) (m_finishQueue q)"
    and fin: "finisher_ok (finishThread q) (m_finishQueue q)"
    by (simp_all add: finish_ok_def)
  have a: "\<exists>c. cmdList (e_submit e) = Some c
            \<and> e = entry0\<lparr> e_submit := e_submit e \<rparr>
            \<and> CmdList_submit c (waitSync (e_submit e)) (wakeSync (e_submit e)) VK_SUCCESS
                 \<in> set (trace q)"
    if "e \<in> set (m_finishQueue q)" for e
    using all that submittedD by (auto simp: list_all_iff)
  have mem: "e \<in> set (m_finishQueue q)"
    if "finishThread q = F_Sync e \<or> finishThread q = F_Handle e status" for e status
    using that fin by (auto split: list.splits)
  have b: "e \<in> set (m_finishQueue q) \<and> cmdList (e_submit e) \<noteq> None"
    if "finishThread q = F_Sync e \<or> finishThread q = F_Handle e status" for e status
    using mem [OF that] a by fastforce
  have c: "finishThread q \<noteq> F_Undefined"
    using fin by auto
  have d: "finishThread q' \<noteq> F_Undefined" if "finishCmdLists r q = Some q'" for r q'
    using finishCmdLists_defined [OF fin all that] .
  from a b c d show ?thesis
    by blast
qed

theorem C9_completion_entries_witness:
  "reachable cfgB (after cfgB (Call_submit (cmd 1) # submitter 5 VK_SUCCESS @ finisher 1 VK_SUCCESS))
   \<and> m_finishQueue (after cfgB (Call_submit (cmd 1) # submitter 5 VK_SUCCESS @ finisher 1 VK_SUCCESS))
      = [entry0\<lparr> e_submit := cmd 1 \<rparr>]
   \<and> finishThread (after cfgB (Call_submit (cmd 1) # submitter 5 VK_SUCCESS @ finisher 1 VK_SUCCESS))
      = F_Sync (entry0\<lparr> e_submit := cmd 1 \<rparr>)
   \<and> (\<exists>c. cmdList (e_submit (entry0\<lparr> e_submit := cmd 1 \<rparr>)) = Some c
        \<and> CmdList_submit c (waitSync (e_submit (entry0\<lparr> e_submit := cmd 1 \<rparr>)))
             (wakeSync (e_submit (entry0\<lparr> e_submit := cmd 1 \<rparr>))) VK_SUCCESS
           \<in> set (trace
             (after cfgB (Call_submit (cmd 1) # submitter 5 VK_SUCCESS @ finisher 1 VK_SUCCESS))))
   \<and> finishThread (after cfgB (Call_submit (cmd 1) # submitter 5 VK_SUCCESS @ finisher 1 VK_SUCCESS))
      \<noteq> F_Undefined"
proof -
  have "runs cfgB (Call_submit (cmd 1) # submitter 5 VK_SUCCESS @ finisher 1 VK_SUCCESS)"
    by code_simp
  then have h1: "reachable cfgB
      (after cfgB (Call_submit (cmd 1) # submitter 5 VK_SUCCESS @ finisher 1 VK_SUCCESS))"
    by (rule reachable_after)
  have h2: "m_finishQueue (after cfgB (Call_submit (cmd 1) # submitter 5 VK_SUCCESS @ finisher 1 VK_SUCCESS))
      = [entry0\<lparr> e_submit := cmd 1 \<rparr>]"
    by code_simp
  have h3: "finishThread (after cfgB (Call_submit (cmd 1) # submitter 5 VK_SUCCESS @ finisher 1 VK_SUCCESS))
      = F_Sync (entry0\<lparr> e_submit := cmd 1 \<rparr>)"
    by code_simp
  have h4: "entry0\<lparr> e_submit := cmd 1 \<rparr>
      \<in> set (m_finishQueue
          (after cfgB (Call_submit (cmd 1) # submitter 5 VK_SUCCESS @ finisher 1 VK_SUCCESS)))"
    unfolding h2 by simp
  show ?thesis
    using h1 h2 h3 h4 C9_completion_entries [OF h1] by blast
qed

text \<open>
  C3, as the code has it. The predicate of the wait is
  \<open>size + size \<le> MaxNumQueuedCommandBuffers\<close>: a call of \<open>submit\<close> waits exactly
  when the two queues hold more than \<open>MaxNumQueuedCommandBuffers\<close> entries, and with
  exactly that many it returns at once. A call that waits stays asleep through every run
  in which the finisher takes no step, whatever the producers and the submitter do. From
  empty queues, up to \<open>MaxNumQueuedCommandBuffers + 1\<close> calls of \<open>submit\<close> in a row
  all return without waiting.
\<close>

theorem C3_backpressure:
  "(MaxNumQueuedCommandBuffers cfg < length (m_submitQueue q) + length (m_finishQueue q)
      \<longrightarrow> submit cfg submitInfo q = Waits (wait_on (In_submit submitInfo) q))
   \<and> (length (m_submitQueue q) + length (m_finishQueue q) \<le> MaxNumQueuedCommandBuffers cfg
      \<longrightarrow> submit cfg submitInfo q = Returns (submit_push submitInfo q))
   \<and> (run cfg as (wait_on (In_submit submitInfo) q) = Some q'
        \<and> \<not> list_ex is_finisher_step as
      \<longrightarrow> (\<exists>j\<le>length (callers q). j < length (callers q')
             \<and> callers q' ! j = (In_submit submitInfo, False)))
   \<and> (m_submitQueue q = [] \<and> m_finishQueue q = []
        \<and> length infos \<le> MaxNumQueuedCommandBuffers cfg + 1
      \<longrightarrow> (\<exists>q''. submit_all cfg infos q = Returns q''
             \<and> m_submitQueue q'' = map (\<lambda>i. entry0\<lparr> e_submit := i \<rparr>) infos
             \<and> callers q'' = callers q))"
proof -
  have "\<exists>j\<le>length (callers q). j < length (callers q')
             \<and> callers q' ! j = (In_submit submitInfo, False)"
    if "run cfg as (wait_on (In_submit submitInfo) q) = Some q'"
      and "\<not> list_ex is_finisher_step as"
    using asleep_run [OF that, of "length (callers q)" submitInfo]
    by (simp add: wait_on_def)
  moreover have "\<exists>q''. submit_all cfg infos q = Returns q''
             \<and> m_submitQueue q'' = map (\<lambda>i. entry0\<lparr> e_submit := i \<rparr>) infos
             \<and> callers q'' = callers q"
    if "m_submitQueue q = []" and "m_finishQueue q = []"
      and "length infos \<le> MaxNumQueuedCommandBuffers cfg + 1"
    using submit_all_fits [of q infos cfg] that by auto
  ultimately show ?thesis
    by (auto simp: submit_def submit_pred_def)
qed

theorem C3_backpressure_witness:
  "MaxNumQueuedCommandBuffers cfgA
     < length (m_submitQueue (after cfgA [Call_submit (cmd 1), Call_submit (cmd 2), Call_submit (cmd 3)]))
       + length (m_finishQueue (after cfgA [Call_submit (cmd 1), Call_submit (cmd 2), Call_submit (cmd 3)]))
   \<and> submit cfgA (cmd 4) (after cfgA [Call_submit (cmd 1), Call_submit (cmd 2), Call_submit (cmd 3)])
      = Waits (wait_on (In_submit (cmd 4))
          (after cfgA [Call_submit (cmd 1), Call_submit (cmd 2), Call_submit (cmd 3)]))
   \<and> length (m_submitQueue (after cfgA [Call_submit (cmd 1), Call_submit (cmd 2)]))
       + length (m_finishQueue (after cfgA [Call_submit (cmd 1), Call_submit (cmd 2)]))
     \<le> MaxNumQueuedCommandBuffers cfgA
   \<and> submit cfgA (cmd 3) (after cfgA [Call_submit (cmd 1), Call_submit (cmd 2)])
      = Returns (submit_push (cmd 3) (after cfgA [Call_submit (cmd 1), Call_submit (cmd 2)]))
   \<and> run cfgA (submitter 5 (VK_RESULT (- 2)))
        (wait_on (In_submit (cmd 4))
          (after cfgA [Call_submit (cmd 1), Call_submit (cmd 2), Call_submit (cmd 3)]))
      = Some (after cfgA ([Call_submit (cmd 1), Call_submit (cmd 2), Call_submit (cmd 3),
          Call_submit (cmd 4)] @ submitter 5 (VK_RESULT (- 2))))
   \<and> \<not> list_ex is_finisher_step (submitter 5 (VK_RESULT (- 2)))
   \<and> (\<exists>j\<le>0. callers (after cfgA ([Call_submit (cmd 1), Call_submit (cmd 2), Call_submit (cmd 3),
          Call_submit (cmd 4)] @ submitter 5 (VK_RESULT (- 2)))) ! j = (In_submit (cmd 4), False))
   \<and> m_submitQueue (init (\<lambda>slot. VK_NOT_READY)) = []
   \<and> m_finishQueue (init (\<lambda>slot. VK_NOT_READY)) = []
   \<and> length [cmd 1, cmd 2, cmd 3] \<le> MaxNumQueuedCommandBuffers cfgA + 1
   \<and> (\<exists>q''. submit_all cfgA [cmd 1, cmd 2, cmd 3] (init (\<lambda>slot. VK_NOT_READY)) = Returns q''
        \<and> m_submitQueue q'' = map (\<lambda>i. entry0\<lparr> e_submit := i \<rparr>) [cmd 1, cmd 2, cmd 3])"
proof -
  have h1: "MaxNumQueuedCommandBuffers cfgA
     < length (m_submitQueue (after cfgA [Call_submit (cmd 1), Call_submit (cmd 2), Call_submit (cmd 3)]))
       + length (m_finishQueue (after cfgA [Call_submit (cmd 1), Call_submit (cmd 2), Call_submit (cmd 3)]))"
    by code_simp
  have h2: "length (m_submitQueue (after cfgA [Call_submit (cmd 1), Call_submit (cmd 2)]))
       + length (m_finishQueue (after cfgA [Call_submit (cmd 1), Call_submit (cmd 2)]))
     \<le> MaxNumQueuedCommandBuffers cfgA"
    by code_simp
  have r4: "runs cfgA ([Call_submit (cmd 1), Call_submit (cmd 2), Call_submit (cmd 3)]
      @ [Call_submit (cmd 4)])"
    by code_simp
  have w: "submit cfgA (cmd 4) (after cfgA [Call_submit (cmd 1), Call_submit (cmd 2), Call_submit (cmd 3)])
      = Waits (wait_on (In_submit (cmd 4))
          (after cfgA [Call_submit (cmd 1), Call_submit (cmd 2), Call_submit (cmd 3)]))"
    using h1 C3_backpressure [of cfgA
        "after cfgA [Call_submit (cmd 1), Call_submit (cmd 2), Call_submit (cmd 3)]" "cmd 4"]
    by blast
  have a4: "wait_on (In_submit (cmd 4))
        (after cfgA [Call_submit (cmd 1), Call_submit (cmd 2), Call_submit (cmd 3)])
      = after cfgA [Call_submit (cmd 1), Call_submit (cmd 2), Call_submit (cmd 3), Call_submit (cmd 4)]"
    using after_step [OF r4] w by simp
  have r9: "runs cfgA ([Call_submit (cmd 1), Call_submit (cmd 2), Call_submit (cmd 3),
          Call_submit (cmd 4)] @ submitter 5 (VK_RESULT (- 2)))"
    by code_simp
  have r4': "runs cfgA [Call_submit (cmd 1), Call_submit (cmd 2), Call_submit (cmd 3),
          Call_submit (cmd 4)]"
    using r4 by simp
  have h3: "run cfgA (submitter 5 (VK_RESULT (- 2)))
        (wait_on (In_submit (cmd 4))
          (after cfgA [Call_submit (cmd 1), Call_submit (cmd 2), Call_submit (cmd 3)]))
      = Some (after cfgA ([Call_submit (cmd 1), Call_submit (cmd 2), Call_submit (cmd 3),
          Call_submit (cmd 4)] @ submitter 5 (VK_RESULT (- 2))))"
    using r9 r4' unfolding a4
    by (auto simp: runs_def after_def run_append Option.is_none_def split: option.splits)
  have h4: "\<not> list_ex is_finisher_step (submitter 5 (VK_RESULT (- 2)))"
    by code_simp
  have h5: "callers (after cfgA [Call_submit (cmd 1), Call_submit (cmd 2), Call_submit (cmd 3)]) = []"
    by code_simp
  have h6: "m_submitQueue (init (\<lambda>slot. VK_NOT_READY)) = []"
    by (simp add: init_def)
  have h7: "m_finishQueue (init (\<lambda>slot. VK_NOT_READY)) = []"
    by (simp add: init_def)
  have h8: "length [cmd 1, cmd 2, cmd 3] \<le> MaxNumQueuedCommandBuffers cfgA + 1"
    by (simp add: cfgA_def)
  have c2: "submit cfgA (cmd 3) (after cfgA [Call_submit (cmd 1), Call_submit (cmd 2)])
      = Returns (submit_push (cmd 3) (after cfgA [Call_submit (cmd 1), Call_submit (cmd 2)]))"
    using h2 C3_backpressure [of cfgA "after cfgA [Call_submit (cmd 1), Call_submit (cmd 2)]" "cmd 3"]
    by blast
  have "\<exists>j\<le>length (callers (after cfgA [Call_submit (cmd 1), Call_submit (cmd 2), Call_submit (cmd 3)])).
      j < length (callers (after cfgA ([Call_submit (cmd 1), Call_submit (cmd 2), Call_submit (cmd 3),
          Call_submit (cmd 4)] @ submitter 5 (VK_RESULT (- 2)))))
      \<and> callers (after cfgA ([Call_submit (cmd 1), Call_submit (cmd 2), Call_submit (cmd 3),
          Call_submit (cmd 4)] @ submitter 5 (VK_RESULT (- 2)))) ! j = (In_submit (cmd 4), False)"
    using h3 h4
      C3_backpressure [of cfgA
        "after cfgA [Call_submit (cmd 1), Call_submit (cmd 2), Call_submit (cmd 3)]" "cmd 4"
        "submitter 5 (VK_RESULT (- 2))"
        "after cfgA ([Call_submit (cmd 1), Call_submit (cmd 2), Call_submit (cmd 3),
          Call_submit (cmd 4)] @ submitter 5 (VK_RESULT (- 2)))"]
    by blast
  then have c3: "\<exists>j\<le>0. callers (after cfgA ([Call_submit (cmd 1), Call_submit (cmd 2),
          Call_submit (cmd 3), Call_submit (cmd 4)] @ submitter 5 (VK_RESULT (- 2)))) ! j
        = (In_submit (cmd 4), False)"
    unfolding h5 by auto
  have c4: "\<exists>q''. submit_all cfgA [cmd 1, cmd 2, cmd 3] (init (\<lambda>slot. VK_NOT_READY)) = Returns q''
        \<and> m_submitQueue q'' = map (\<lambda>i. entry0\<lparr> e_submit := i \<rparr>) [cmd 1, cmd 2, cmd 3]"
    using h6 h7 h8
      C3_backpressure [of cfgA "init (\<lambda>slot. VK_NOT_READY)" _ _ _ "[cmd 1, cmd 2, cmd 3]"]
    by blast
  show ?thesis
    using h1 w h2 c2 h3 h4 c3 h6 h7 h8 c4 by blast
qed

text \<open>
  C3 as stated fails: with \<open>MaxNumQueuedCommandBuffers = 2\<close> and two submit entries in
  flight, no worker having taken a step, the next call of \<open>submit\<close> returns at once and
  the queues hold three entries.
\<close>

theorem C3_counterexample:
  "runs cfgA [Call_submit (cmd 1), Call_submit (cmd 2), Call_submit (cmd 3)]
   \<and> MaxNumQueuedCommandBuffers cfgA = 2
   \<and> map (cmdList \<circ> e_submit) (m_submitQueue (after cfgA [Call_submit (cmd 1), Call_submit (cmd 2)]))
      = [Some 1, Some 2]
   \<and> m_finishQueue (after cfgA [Call_submit (cmd 1), Call_submit (cmd 2)]) = []
   \<and> callers (after cfgA [Call_submit (cmd 1), Call_submit (cmd 2), Call_submit (cmd 3)]) = []
   \<and> map (cmdList \<circ> e_submit)
        (m_submitQueue (after cfgA [Call_submit (cmd 1), Call_submit (cmd 2), Call_submit (cmd 3)]))
      = [Some 1, Some 2, Some 3]"
  by code_simp

text \<open>
  C10. The destructor sets \<open>m_stopped\<close> and notifies \<open>m_appendCond\<close> and
  \<open>m_submitCond\<close>: a sleeping submitter and a sleeping finisher are woken, and a
  producer asleep in the wait of \<open>submit\<close> is not (it stays un-notified, so it has no
  step). Such a producer stays asleep through every step of every thread except the
  finisher's step of lines 243 to 247, the only one that notifies \<open>m_finishCond\<close>.
\<close>

theorem C10_shutdown_leaves_submit_asleep:
  "m_stopped (destructor q)
   \<and> (submitThread q = S_Asleep \<longrightarrow> submitThread (destructor q) = S_Loop)
   \<and> (finishThread q = F_Asleep \<longrightarrow> finishThread (destructor q) = F_Loop)
   \<and> (i < length (callers q) \<and> callers q ! i = (In_submit submitInfo, False) \<longrightarrow>
        callers (destructor q) ! i = (In_submit submitInfo, False)
        \<and> wake cfg i (destructor q) = None
        \<and> (\<forall>a q'. step cfg a q = Some q' \<and> \<not> (finishThread q = F_Pop \<and> is_finisher_step a)
              \<longrightarrow> (\<exists>j\<le>i. j < length (callers q')
                     \<and> callers q' ! j = (In_submit submitInfo, False))))"
proof -
  have "callers (destructor q) ! i = (In_submit submitInfo, False)
        \<and> wake cfg i (destructor q) = None"
    if "i < length (callers q)" and "callers q ! i = (In_submit submitInfo, False)"
    using that by (simp add: destructor_def callers_notify_other wake_def)
  moreover have "\<exists>j\<le>i. j < length (callers q')
                     \<and> callers q' ! j = (In_submit submitInfo, False)"
    if "i < length (callers q)" and "callers q ! i = (In_submit submitInfo, False)"
      and "step cfg a q = Some q'" and "\<not> (finishThread q = F_Pop \<and> is_finisher_step a)"
    for a q'
    using asleep_step [OF that(3) that(1) that(2) that(4)] .
  moreover have "m_stopped (destructor q)
   \<and> (submitThread q = S_Asleep \<longrightarrow> submitThread (destructor q) = S_Loop)
   \<and> (finishThread q = F_Asleep \<longrightarrow> finishThread (destructor q) = F_Loop)"
    by (simp add: destructor_def notify_all_def)
  ultimately show ?thesis
    by blast
qed

theorem C10_shutdown_leaves_submit_asleep_witness:
  "callers (after cfgA [Call_submit (cmd 1), Call_submit (cmd 2), Call_submit (cmd 3),
      Call_submit (cmd 4)]) ! 0 = (In_submit (cmd 4), False)
   \<and> 0 < length (callers (after cfgA [Call_submit (cmd 1), Call_submit (cmd 2),
      Call_submit (cmd 3), Call_submit (cmd 4)]))
   \<and> m_stopped (destructor (after cfgA [Call_submit (cmd 1), Call_submit (cmd 2),
      Call_submit (cmd 3), Call_submit (cmd 4)]))
   \<and> callers (destructor (after cfgA [Call_submit (cmd 1), Call_submit (cmd 2),
      Call_submit (cmd 3), Call_submit (cmd 4)])) ! 0 = (In_submit (cmd 4), False)
   \<and> wake cfgA 0 (destructor (after cfgA [Call_submit (cmd 1), Call_submit (cmd 2),
      Call_submit (cmd 3), Call_submit (cmd 4)])) = None"
proof -
  have h: "callers (after cfgA [Call_submit (cmd 1), Call_submit (cmd 2), Call_submit (cmd 3),
      Call_submit (cmd 4)]) ! 0 = (In_submit (cmd 4), False)
   \<and> 0 < length (callers (after cfgA [Call_submit (cmd 1), Call_submit (cmd 2),
      Call_submit (cmd 3), Call_submit (cmd 4)]))"
    by code_simp
  show ?thesis
    using h C10_shutdown_leaves_submit_asleep [of
        "after cfgA [Call_submit (cmd 1), Call_submit (cmd 2), Call_submit (cmd 3), Call_submit (cmd 4)]"
        0 "cmd 4" cfgA]
    by blast
qed


end
